theory Spec2Isabelle
  imports Complex_Main "HOL-Library.Sublist" "HOL-Library.Char_ord" "HOL-Library.List_Lexorder"
begin

section \<open>JavaScript strings and numbers\<close>

text \<open>
  Strings are lists of characters, read as ASCII text: the case mappings below change the
  letters a-z and A-Z only, and white space is the ASCII white space that
  \<^verbatim>\<open>String.prototype.trim\<close> and the regular expression class \<^verbatim>\<open>\s\<close> recognise.
\<close>

definition isDigit :: "char \<Rightarrow> bool" where
  "isDigit c = (c \<in> set ''0123456789'')"

definition isLower :: "char \<Rightarrow> bool" where
  "isLower c = (c \<in> set ''abcdefghijklmnopqrstuvwxyz'')"

definition isUpper :: "char \<Rightarrow> bool" where
  "isUpper c = (c \<in> set ''ABCDEFGHIJKLMNOPQRSTUVWXYZ'')"

definition isLetter :: "char \<Rightarrow> bool" where
  \<comment> \<open>the class \<^verbatim>\<open>[a-zA-Z]\<close>\<close>
  "isLetter c = (isLower c \<or> isUpper c)"

definition isAlnum :: "char \<Rightarrow> bool" where
  \<comment> \<open>the class \<^verbatim>\<open>[a-zA-Z0-9]\<close>\<close>
  "isAlnum c = (isLetter c \<or> isDigit c)"


definition isSpace :: "char \<Rightarrow> bool" where
  \<comment> \<open>tab, line feed, vertical tab, form feed, carriage return, space\<close>
  "isSpace c = (c \<in> {CHR 0x09, CHR 0x0A, CHR 0x0B, CHR 0x0C, CHR 0x0D, CHR '' ''})"

definition toUpperChar :: "char \<Rightarrow> char" where
  "toUpperChar c =
     (case map_of (zip ''abcdefghijklmnopqrstuvwxyz'' ''ABCDEFGHIJKLMNOPQRSTUVWXYZ'') c of
        Some u \<Rightarrow> u | None \<Rightarrow> c)"

definition toLowerChar :: "char \<Rightarrow> char" where
  "toLowerChar c =
     (case map_of (zip ''ABCDEFGHIJKLMNOPQRSTUVWXYZ'' ''abcdefghijklmnopqrstuvwxyz'') c of
        Some l \<Rightarrow> l | None \<Rightarrow> c)"

definition toUpperCase :: "string \<Rightarrow> string" where
  "toUpperCase s = map toUpperChar s"

definition toLowerCase :: "string \<Rightarrow> string" where
  "toLowerCase s = map toLowerChar s"

definition trim :: "string \<Rightarrow> string" where
  "trim s = rev (dropWhile isSpace (rev (dropWhile isSpace s)))"

fun startsWith :: "string \<Rightarrow> string \<Rightarrow> bool" where
  "startsWith s [] = True"
| "startsWith [] (c # t) = False"
| "startsWith (d # s) (c # t) = (d = c \<and> startsWith s t)"

fun includes_str :: "string \<Rightarrow> string \<Rightarrow> bool" where
  \<comment> \<open>\<^verbatim>\<open>s.includes(t)\<close>: \<open>t\<close> occurs in \<open>s\<close> as a contiguous substring\<close>
  "includes_str [] t = (t = [])"
| "includes_str (c # s) t = (startsWith (c # s) t \<or> includes_str s t)"

definition padStart :: "nat \<Rightarrow> char \<Rightarrow> string \<Rightarrow> string" where
  "padStart n c s = replicate (n - length s) c @ s"

definition padEnd :: "nat \<Rightarrow> char \<Rightarrow> string \<Rightarrow> string" where
  "padEnd n c s = s @ replicate (n - length s) c"

definition digitChar :: "nat \<Rightarrow> char" where
  "digitChar d = ''0123456789'' ! (d mod 10)"

fun showNat :: "nat \<Rightarrow> string" where
  "showNat n = (if n < 10 then [digitChar n] else showNat (n div 10) @ [digitChar (n mod 10)])"

declare showNat.simps [simp del]

definition showInt :: "int \<Rightarrow> string" where
  \<comment> \<open>\<^verbatim>\<open>String(n)\<close> for an integral number\<close>
  "showInt i = (if i < 0 then CHR ''-'' # showNat (nat (- i)) else showNat (nat i))"

definition digitVal :: "char \<Rightarrow> nat" where
  "digitVal c = (case map_of (zip ''0123456789'' [0, 1, 2, 3, 4, 5, 6, 7, 8, 9]) c of
                   Some d \<Rightarrow> d | None \<Rightarrow> 0)"

definition natOfDigits :: "string \<Rightarrow> nat" where
  "natOfDigits ds = foldl (\<lambda>a c. 10 * a + digitVal c) 0 ds"


section \<open>Code grammar\<close>

subsection \<open>normalizeNDC\<close>

definition normalizeNDC :: "string \<Rightarrow> string" where
  \<comment> \<open>\<^verbatim>\<open>ndc.replace(/[^0-9]/g, '')\<close>\<close>
  "normalizeNDC ndc = filter isDigit ndc"

subsection \<open>validateLotCode\<close>

definition validateLotCode :: "string \<Rightarrow> bool \<Rightarrow> bool" where
  "validateLotCode lotCode requireLocation =
     (if lotCode = [] then False
      else if length lotCode < 1 \<or> length lotCode > 2 then False
      else if \<not> isUpper (hd (toUpperCase lotCode)) then False
      else if requireLocation \<and>
              (length lotCode \<noteq> 2 \<or>
               (let side = toUpperChar (lotCode ! 1) in side \<noteq> CHR ''L'' \<and> side \<noteq> CHR ''R''))
        then False
      else if length lotCode = 2 \<and>
              (let side = toUpperChar (lotCode ! 1) in side \<noteq> CHR ''L'' \<and> side \<noteq> CHR ''R'')
        then False
      else True)"

subsection \<open>generateQRCode\<close>

text \<open>
  A date is given by the local calendar fields the generator reads from it:
  \<^verbatim>\<open>getMonth()\<close> (0 to 11), \<^verbatim>\<open>getDate()\<close> and \<^verbatim>\<open>getFullYear()\<close>.
\<close>

record date =
  getMonth :: nat
  getDate :: nat
  getFullYear :: int

definition dateStr :: "date \<Rightarrow> string" where
  "dateStr d =
     (let month = padStart 2 CHR ''0'' (showNat (getMonth d + 1));
          day = padStart 2 CHR ''0'' (showNat (getDate d));
          year = (let y = showInt (getFullYear d) in drop (length y - 2) y)
      in month @ day @ year)"

definition medCode :: "string \<Rightarrow> string" where
  "medCode medicationName =
     padEnd 4 CHR ''X'' (toUpperCase (take 4 (filter isAlnum medicationName)))"

definition doseNum :: "string \<Rightarrow> string" where
  "doseNum dosage =
     take 2 (padStart 2 CHR ''0''
       (takeWhile (\<lambda>c. c \<noteq> CHR ''.'') (filter (\<lambda>c. isDigit c \<or> c = CHR ''.'') dosage)))"

definition baseCode :: "string \<Rightarrow> date \<Rightarrow> string \<Rightarrow> string \<Rightarrow> string" where
  "baseCode lotCode d medicationName dosage =
     toUpperCase lotCode @ ''-'' @ dateStr d @ ''-'' @ medCode medicationName @ ''-'' @ doseNum dosage"

definition generateQRCode :: "string \<Rightarrow> date \<Rightarrow> string \<Rightarrow> string \<Rightarrow> int option \<Rightarrow> string" where
  \<comment> \<open>the optional sequence number is \<open>None\<close> when the argument is left out\<close>
  "generateQRCode lotCode d medicationName dosage sequence =
     (case sequence of
        Some n \<Rightarrow>
          if n > 0 then baseCode lotCode d medicationName dosage @ ''-'' @ padStart 2 CHR ''0'' (showInt n)
          else baseCode lotCode d medicationName dosage
      | None \<Rightarrow> baseCode lotCode d medicationName dosage)"

subsection \<open>parseDosage\<close>





section \<open>The store\<close>

text \<open>
  The program reaches its relational store through a query client. The two relations it
  reads are modelled as lists of rows, in the order in which the store returns them.
  A drug row carries a nullable generic name and, since migration 001, a nullable NDC.
\<close>

datatype error =
    TypeError
      \<comment> \<open>a method call on \<^verbatim>\<open>null\<close>\<close>
  | Error string
      \<comment> \<open>\<^verbatim>\<open>new Error(message)\<close>\<close>

record drug =
  drug_id :: string
  medication_name :: string
  generic_name :: "string option"
  strength :: rat
  strength_unit :: string
  ndc_id :: "string option"
  form :: string

record unit_row =
  unit_id :: string
  clinic_id :: string
  available_quantity :: int
  unit_drug :: "drug option"
    \<comment> \<open>the joined row \<^verbatim>\<open>drug:drugs (...)\<close>, \<^verbatim>\<open>null\<close> when there is none\<close>

record db =
  units :: "unit_row list"
  drugs :: "drug list"
  units_fail :: bool
    \<comment> \<open>reads of \<^verbatim>\<open>units\<close> fail: the client answers \<^verbatim>\<open>data: null\<close>\<close>
  drugs_fail :: bool
    \<comment> \<open>reads of \<^verbatim>\<open>drugs\<close> fail\<close>
  or_filter :: "string \<Rightarrow> drug list"
    \<comment> \<open>the rows of \<^verbatim>\<open>drugs\<close> that the store selects for the text of an \<^verbatim>\<open>.or(...)\<close>
        filter; the store interprets that text, not the program\<close>
  insert_outcome :: "string + string"
    \<comment> \<open>what the next insert into \<^verbatim>\<open>drugs\<close> does: \<open>Inl message\<close> when the write fails,
        \<open>Inr id\<close> with the identifier the store gives the new row otherwise\<close>

definition single :: "'a list \<Rightarrow> 'a option" where
  \<comment> \<open>\<^verbatim>\<open>.single()\<close>: the row when the answer has exactly one row; otherwise the client
      reports an error and \<^verbatim>\<open>data\<close> is \<^verbatim>\<open>null\<close>\<close>
  "single rows = (case rows of [r] \<Rightarrow> Some r | _ \<Rightarrow> None)"

definition inStockUnits :: "db \<Rightarrow> string \<Rightarrow> unit_row list option" where
  \<comment> \<open>\<^verbatim>\<open>from('units').select(...).eq('clinic_id', clinicId).gt('available_quantity', 0)\<close>\<close>
  "inStockUnits s clinicId =
     (if units_fail s then None
      else Some (filter (\<lambda>u. clinic_id u = clinicId \<and> available_quantity u > 0) (units s)))"

definition drugsOr :: "db \<Rightarrow> string \<Rightarrow> nat \<Rightarrow> drug list option" where
  \<comment> \<open>\<^verbatim>\<open>from('drugs').select('*').or(filter).limit(n)\<close>\<close>
  "drugsOr s flt n = (if drugs_fail s then None else Some (take n (or_filter s flt)))"

definition drugByNDC :: "db \<Rightarrow> string \<Rightarrow> drug option" where
  \<comment> \<open>\<^verbatim>\<open>from('drugs').select(...).eq('ndc_id', ndc).single()\<close>\<close>
  "drugByNDC s ndc =
     (if drugs_fail s then None else single (filter (\<lambda>d. ndc_id d = Some ndc) (drugs s)))"

fun ilike :: "string \<Rightarrow> string \<Rightarrow> bool" where
  \<comment> \<open>\<open>ilike text pattern\<close>, the store's case-insensitive pattern match: \<^verbatim>\<open>%\<close> (or the
      client's alias \<^verbatim>\<open>*\<close>) stands for any text, \<^verbatim>\<open>_\<close> for any one character, and a
      backslash takes the next character literally\<close>
  "ilike t [] = (t = [])"
| "ilike t (p # ps) =
     (if p = CHR ''%'' \<or> p = CHR ''*'' then
        (ilike t ps \<or> (case t of [] \<Rightarrow> False | c # t' \<Rightarrow> ilike t' (p # ps)))
      else if p = CHR ''_'' then
        (case t of [] \<Rightarrow> False | c # t' \<Rightarrow> ilike t' ps)
      else if p = CHR 0x5C then
        (case ps of
           [] \<Rightarrow> False
         | q # qs \<Rightarrow> (case t of [] \<Rightarrow> False | c # t' \<Rightarrow> toLowerChar c = toLowerChar q \<and> ilike t' qs))
      else
        (case t of [] \<Rightarrow> False | c # t' \<Rightarrow> toLowerChar c = toLowerChar p \<and> ilike t' ps))"

section \<open>Drug search\<close>

record DrugSearchResult =
  drugId :: string
  medicationName :: string
  genericName :: "string option"
  res_strength :: rat
  strengthUnit :: string
  ndcId :: "string option"
  res_form :: string
  inInventory :: bool

definition toResult :: "bool \<Rightarrow> drug \<Rightarrow> DrugSearchResult" where
  \<comment> \<open>the object literal pushed to \<^verbatim>\<open>results\<close>\<close>
  "toResult flag d =
     \<lparr>drugId = drug_id d, medicationName = medication_name d, genericName = generic_name d,
      res_strength = strength d, strengthUnit = strength_unit d, ndcId = ndc_id d,
      res_form = form d, inInventory = flag\<rparr>"

subsection \<open>searchDrugs\<close>

definition ndcMatch :: "string \<Rightarrow> drug \<Rightarrow> error + bool" where
  \<comment> \<open>\<^verbatim>\<open>normalizeNDC(drug.ndc_id).includes(normalizedNDC)\<close>; \<^verbatim>\<open>null.replace\<close> raises\<close>
  "ndcMatch normalizedNDC d =
     (case ndc_id d of
        None \<Rightarrow> Inl TypeError
      | Some n \<Rightarrow> Inr (includes_str (normalizeNDC n) normalizedNDC))"

definition nameMatch :: "string \<Rightarrow> drug \<Rightarrow> error + bool" where
  \<comment> \<open>the generic name is read only when the medication name does not match\<close>
  "nameMatch normalizedQuery d =
     (if includes_str (toLowerCase (medication_name d)) (toLowerCase normalizedQuery) then Inr True
      else (case generic_name d of
              None \<Rightarrow> Inl TypeError
            | Some g \<Rightarrow> Inr (includes_str (toLowerCase g) (toLowerCase normalizedQuery))))"

type_synonym search_state = "string option list \<times> DrugSearchResult list"
  \<comment> \<open>\<^verbatim>\<open>seenNDCs\<close> and \<^verbatim>\<open>results\<close>\<close>

fun inventoryLoop :: "string \<Rightarrow> string \<Rightarrow> unit_row list \<Rightarrow> search_state \<Rightarrow> error + search_state" where
  "inventoryLoop normalizedQuery normalizedNDC [] st = Inr st"
| "inventoryLoop normalizedQuery normalizedNDC (u # us) (seenNDCs, results) =
     (case unit_drug u of
        None \<Rightarrow> inventoryLoop normalizedQuery normalizedNDC us (seenNDCs, results)
      | Some d \<Rightarrow>
          (case ndcMatch normalizedNDC d of
             Inl e \<Rightarrow> Inl e
           | Inr nm \<Rightarrow>
               (case nameMatch normalizedQuery d of
                  Inl e \<Rightarrow> Inl e
                | Inr sm \<Rightarrow>
                    if (nm \<or> sm) \<and> ndc_id d \<notin> set seenNDCs
                    then inventoryLoop normalizedQuery normalizedNDC us
                           (seenNDCs @ [ndc_id d], results @ [toResult True d])
                    else inventoryLoop normalizedQuery normalizedNDC us (seenNDCs, results))))"

fun catalogLoop :: "drug list \<Rightarrow> search_state \<Rightarrow> search_state" where
  "catalogLoop [] st = st"
| "catalogLoop (d # ds) (seenNDCs, results) =
     (if ndc_id d \<notin> set seenNDCs
      then catalogLoop ds (seenNDCs @ [ndc_id d], results @ [toResult False d])
      else catalogLoop ds (seenNDCs, results))"

definition drugsFilter :: "string \<Rightarrow> string \<Rightarrow> string" where
  \<comment> \<open>the text handed to \<^verbatim>\<open>.or(...)\<close>\<close>
  "drugsFilter normalizedNDC normalizedQuery =
     ''ndc_id.ilike.%'' @ (if normalizedNDC \<noteq> [] then normalizedNDC else normalizedQuery) @
     ''%,medication_name.ilike.%'' @ normalizedQuery @
     ''%,generic_name.ilike.%'' @ normalizedQuery @ ''%''"

definition searchDrugs :: "db \<Rightarrow> string \<Rightarrow> string \<Rightarrow> error + DrugSearchResult list" where
  "searchDrugs s query clinicId =
     (if query = [] \<or> length (trim query) < 2 then Inr []
      else
        (let normalizedQuery = trim query;
             normalizedNDC = normalizeNDC normalizedQuery
         in case (case inStockUnits s clinicId of
                    None \<Rightarrow> Inr ([], [])
                  | Some inventoryDrugs \<Rightarrow>
                      inventoryLoop normalizedQuery normalizedNDC inventoryDrugs ([], [])) of
              Inl e \<Rightarrow> Inl e
            | Inr st \<Rightarrow>
                (case drugsOr s (drugsFilter normalizedNDC normalizedQuery) 20 of
                   None \<Rightarrow> Inr (take 10 (snd st))
                 | Some allDrugs \<Rightarrow> Inr (take 10 (snd (catalogLoop allDrugs st))))))"

subsection \<open>searchDrugByNDC\<close>

definition inventoryByNDC :: "db \<Rightarrow> string \<Rightarrow> string option \<Rightarrow> error + DrugSearchResult option" where
  \<comment> \<open>the block guarded by \<^verbatim>\<open>if (clinicId)\<close>: the units query ends in
      \<^verbatim>\<open>.limit(1).single()\<close> and has no condition on the NDC\<close>
  "inventoryByNDC s normalizedNDC clinicId =
     (case clinicId of
        None \<Rightarrow> Inr None
      | Some c \<Rightarrow>
          if c = [] then Inr None
          else (case (case inStockUnits s c of None \<Rightarrow> None | Some rows \<Rightarrow> single (take 1 rows)) of
                  None \<Rightarrow> Inr None
                | Some inventoryUnit \<Rightarrow>
                    (case unit_drug inventoryUnit of
                       None \<Rightarrow> Inr None
                     | Some d \<Rightarrow>
                         (case ndc_id d of
                            None \<Rightarrow> Inl TypeError
                          | Some n \<Rightarrow>
                              if normalizeNDC n = normalizedNDC then Inr (Some (toResult True d))
                              else Inr None))))"

definition searchDrugByNDC :: "db \<Rightarrow> string \<Rightarrow> string option \<Rightarrow> error + DrugSearchResult option" where
  "searchDrugByNDC s ndc clinicId =
     (case inventoryByNDC s (normalizeNDC ndc) clinicId of
        Inl e \<Rightarrow> Inl e
      | Inr (Some r) \<Rightarrow> Inr (Some r)
      | Inr None \<Rightarrow>
          (case drugByNDC s ndc of
             Some d \<Rightarrow> Inr (Some (toResult False d))
           | None \<Rightarrow> Inr None))"

subsection \<open>searchMedicationsByName\<close>

text \<open>
  Two services of the JavaScript runtime are parameters of the model: \<open>numStr\<close>, the
  text a template literal gives a number, and \<open>localeCompare\<close>, the collation of the
  host's locale (negative, zero or positive).
\<close>

definition medKey :: "(rat \<Rightarrow> string) \<Rightarrow> drug \<Rightarrow> string" where
  \<comment> \<open>the deduplication key, a template literal\<close>
  "medKey numStr d =
     toLowerCase (medication_name d) @ ''-'' @ numStr (strength d) @ ''-'' @ strength_unit d"

definition medNameMatch :: "string \<Rightarrow> drug \<Rightarrow> bool" where
  "medNameMatch normalizedQuery d =
     (includes_str (toLowerCase (medication_name d)) normalizedQuery \<or>
      (case generic_name d of
         None \<Rightarrow> False
       | Some g \<Rightarrow> g \<noteq> [] \<and> includes_str (toLowerCase g) normalizedQuery))"

type_synonym med_state = "string list \<times> DrugSearchResult list"
  \<comment> \<open>\<^verbatim>\<open>seenMedications\<close> and \<^verbatim>\<open>results\<close>\<close>

fun medInventoryLoop :: "(rat \<Rightarrow> string) \<Rightarrow> string \<Rightarrow> unit_row list \<Rightarrow> med_state \<Rightarrow> med_state" where
  "medInventoryLoop numStr normalizedQuery [] st = st"
| "medInventoryLoop numStr normalizedQuery (u # us) (seenMedications, results) =
     (case unit_drug u of
        None \<Rightarrow> medInventoryLoop numStr normalizedQuery us (seenMedications, results)
      | Some d \<Rightarrow>
          if medNameMatch normalizedQuery d \<and> medKey numStr d \<notin> set seenMedications
          then medInventoryLoop numStr normalizedQuery us
                 (seenMedications @ [medKey numStr d], results @ [toResult True d])
          else medInventoryLoop numStr normalizedQuery us (seenMedications, results))"

fun medCatalogLoop :: "(rat \<Rightarrow> string) \<Rightarrow> drug list \<Rightarrow> med_state \<Rightarrow> med_state" where
  "medCatalogLoop numStr [] st = st"
| "medCatalogLoop numStr (d # ds) (seenMedications, results) =
     (if medKey numStr d \<notin> set seenMedications
      then medCatalogLoop numStr ds (seenMedications @ [medKey numStr d], results @ [toResult False d])
      else medCatalogLoop numStr ds (seenMedications, results))"

definition medFilter :: "string \<Rightarrow> string" where
  "medFilter normalizedQuery =
     ''medication_name.ilike.%'' @ normalizedQuery @ ''%,generic_name.ilike.%'' @ normalizedQuery @ ''%''"

definition compareResults :: "(string \<Rightarrow> string \<Rightarrow> int) \<Rightarrow> DrugSearchResult \<Rightarrow> DrugSearchResult \<Rightarrow> int" where
  \<comment> \<open>the comparator handed to \<^verbatim>\<open>results.sort\<close>\<close>
  "compareResults localeCompare a b =
     (if inInventory a \<and> \<not> inInventory b then - 1
      else if \<not> inInventory a \<and> inInventory b then 1
      else localeCompare (medicationName a) (medicationName b))"

fun insertBy :: "('a \<Rightarrow> 'a \<Rightarrow> int) \<Rightarrow> 'a \<Rightarrow> 'a list \<Rightarrow> 'a list" where
  "insertBy cmp x [] = [x]"
| "insertBy cmp x (y # ys) = (if cmp x y \<le> 0 then x # y # ys else y # insertBy cmp x ys)"

definition sortBy :: "('a \<Rightarrow> 'a \<Rightarrow> int) \<Rightarrow> 'a list \<Rightarrow> 'a list" where
  \<comment> \<open>\<^verbatim>\<open>Array.prototype.sort(cmp)\<close>, a stable sort: elements that compare equal keep
      their order\<close>
  "sortBy cmp xs = foldr (insertBy cmp) xs []"

definition searchMedicationsByName ::
  "(rat \<Rightarrow> string) \<Rightarrow> (string \<Rightarrow> string \<Rightarrow> int) \<Rightarrow> db \<Rightarrow> string \<Rightarrow> string \<Rightarrow> DrugSearchResult list" where
  "searchMedicationsByName numStr localeCompare s query clinicId =
     (if query = [] \<or> length (trim query) < 2 then []
      else
        (let normalizedQuery = toLowerCase (trim query);
             st = (case inStockUnits s clinicId of
                     None \<Rightarrow> ([], [])
                   | Some inventoryDrugs \<Rightarrow>
                       medInventoryLoop numStr normalizedQuery inventoryDrugs ([], []));
             st' = (case drugsOr s (medFilter normalizedQuery) 30 of
                      None \<Rightarrow> st
                    | Some allDrugs \<Rightarrow> medCatalogLoop numStr allDrugs st)
         in take 15 (sortBy (compareResults localeCompare) (snd st'))))"

section \<open>Drug upsert\<close>

record drugData =
  in_medicationName :: string
  in_genericName :: "string option"
  in_strength :: rat
  in_strengthUnit :: string
  in_ndcId :: "string option"
  in_form :: string

definition similarDrug :: "db \<Rightarrow> drugData \<Rightarrow> drug option" where
  \<comment> \<open>\<^verbatim>\<open>.ilike('medication_name', ...).eq('strength', ...).eq('strength_unit', ...)
      .eq('form', ...).single()\<close>\<close>
  "similarDrug s drugData =
     (if drugs_fail s then None
      else single (filter (\<lambda>d. ilike (medication_name d) (in_medicationName drugData) \<and>
                                strength d = in_strength drugData \<and>
                                strength_unit d = in_strengthUnit drugData \<and>
                                form d = in_form drugData) (drugs s)))"

definition newDrugRow :: "string \<Rightarrow> drugData \<Rightarrow> drug" where
  \<comment> \<open>the inserted row; \<^verbatim>\<open>a || b\<close> takes \<^verbatim>\<open>b\<close> when \<^verbatim>\<open>a\<close> is absent or the empty string\<close>
  "newDrugRow newId drugData =
     \<lparr>drug_id = newId,
      medication_name = in_medicationName drugData,
      generic_name =
        Some (case in_genericName drugData of
                None \<Rightarrow> in_medicationName drugData
              | Some g \<Rightarrow> if g = [] then in_medicationName drugData else g),
      strength = in_strength drugData,
      strength_unit = in_strengthUnit drugData,
      ndc_id = (case in_ndcId drugData of None \<Rightarrow> None | Some n \<Rightarrow> if n = [] then None else Some n),
      form = in_form drugData\<rparr>"

definition getOrCreateDrug :: "db \<Rightarrow> drugData \<Rightarrow> (error + string) \<times> db" where
  \<comment> \<open>the outcome (the error raised, or the identifier returned) and the store afterwards\<close>
  "getOrCreateDrug s drugData =
     (case (case in_ndcId drugData of
              None \<Rightarrow> None
            | Some n \<Rightarrow> if n = [] then None else drugByNDC s n) of
        Some existingDrug \<Rightarrow> (Inr (drug_id existingDrug), s)
      | None \<Rightarrow>
          (case similarDrug s drugData of
             Some d \<Rightarrow> (Inr (drug_id d), s)
           | None \<Rightarrow>
               (case insert_outcome s of
                  Inl message \<Rightarrow> (Inl (Error (''Failed to create drug: '' @ message)), s)
                | Inr newId \<Rightarrow> (Inr newId, s\<lparr>drugs := drugs s @ [newDrugRow newId drugData]\<rparr>))))"

subsection \<open>First occurrences\<close>

text \<open>
  The specification's reading of deduplication, ``first occurrence wins'': of the elements
  of a list that have the same key, only the first one is kept.
\<close>

fun firstOccurrences :: "('a \<Rightarrow> 'k) \<Rightarrow> 'a list \<Rightarrow> 'a list" where
  "firstOccurrences key [] = []"
| "firstOccurrences key (x # xs) = x # filter (\<lambda>y. key y \<noteq> key x) (firstOccurrences key xs)"

text \<open>The match test of the inventory loop of \<open>searchDrugs\<close>, for a drug on which it does not raise.\<close>

definition queryMatch :: "string \<Rightarrow> string \<Rightarrow> drug \<Rightarrow> bool" where
  "queryMatch q n d = (ndcMatch n d = Inr True \<or> nameMatch q d = Inr True)"

section \<open>Sample data\<close>

text \<open>
  A small catalogue, a clinic with two units in stock, and concrete choices for the two
  runtime parameters: numbers without a fractional part printed in decimal, and strings
  compared by their character codes.
\<close>

definition wholeNumStr :: "rat \<Rightarrow> string" where
  "wholeNumStr q = showInt \<lfloor>q\<rfloor>"

definition codeUnitCompare :: "string \<Rightarrow> string \<Rightarrow> int" where
  "codeUnitCompare a b = (if a < b then - 1 else if a = b then 0 else 1)"

definition aspirin :: drug where
  "aspirin = \<lparr>drug_id = ''d-asp'', medication_name = ''Aspirin'',
     generic_name = Some ''Acetylsalicylic acid'', strength = 81, strength_unit = ''mg'',
     ndc_id = Some ''11111-1111-11'', form = ''Tablet''\<rparr>"

definition aspirinTwin :: drug where
  \<comment> \<open>a second catalogue row for the same medication, strength, unit and form\<close>
  "aspirinTwin = \<lparr>drug_id = ''d-asp2'', medication_name = ''Aspirin'',
     generic_name = Some ''Acetylsalicylic acid'', strength = 81, strength_unit = ''mg'',
     ndc_id = Some ''33333-3333-33'', form = ''Tablet''\<rparr>"

definition zinc :: drug where
  "zinc = \<lparr>drug_id = ''d-zn'', medication_name = ''Zinc'',
     generic_name = Some ''Zinc sulfate'', strength = 50, strength_unit = ''mg'',
     ndc_id = Some ''22222-2222-22'', form = ''Tablet''\<rparr>"

definition saline :: drug where
  \<comment> \<open>no generic name\<close>
  "saline = \<lparr>drug_id = ''d-sal'', medication_name = ''Saline'',
     generic_name = None, strength = 9, strength_unit = ''mg'',
     ndc_id = Some ''44444-4444-44'', form = ''Solution''\<rparr>"

definition salbutamol :: drug where
  \<comment> \<open>no NDC\<close>
  "salbutamol = \<lparr>drug_id = ''d-slb'', medication_name = ''Salbutamol'',
     generic_name = Some ''Albuterol'', strength = 2, strength_unit = ''mg'',
     ndc_id = None, form = ''Tablet''\<rparr>"

definition insulin :: drug where
  \<comment> \<open>no NDC\<close>
  "insulin = \<lparr>drug_id = ''d-ins'', medication_name = ''Insulin'',
     generic_name = Some ''Insulin glargine'', strength = 100, strength_unit = ''units'',
     ndc_id = None, form = ''Injection''\<rparr>"

definition unitOf :: "string \<Rightarrow> drug \<Rightarrow> unit_row" where
  \<comment> \<open>a unit of clinic \<^verbatim>\<open>c1\<close> with three items available\<close>
  "unitOf uid d = \<lparr>unit_id = uid, clinic_id = ''c1'', available_quantity = 3, unit_drug = Some d\<rparr>"

definition sampleStore :: db where
  "sampleStore =
     \<lparr>units = [unitOf ''u1'' aspirin, unitOf ''u2'' zinc],
      drugs = [aspirin, zinc, salbutamol, insulin],
      units_fail = False, drugs_fail = False,
      or_filter = (\<lambda>flt. [zinc, salbutamol, insulin, aspirin]),
      insert_outcome = Inr ''d-new''\<rparr>"

definition storeQuiet :: db where
  \<comment> \<open>the sample store when the catalogue query selects no row\<close>
  "storeQuiet = sampleStore\<lparr>or_filter := (\<lambda>flt. [])\<rparr>"

definition storeNullNdc :: db where
  \<comment> \<open>the clinic stocks a drug without an NDC\<close>
  "storeNullNdc = sampleStore\<lparr>units := [unitOf ''u1'' aspirin, unitOf ''u3'' salbutamol]\<rparr>"

definition storeNullGeneric :: db where
  \<comment> \<open>the clinic stocks a drug without a generic name\<close>
  "storeNullGeneric = sampleStore\<lparr>units := [unitOf ''u1'' aspirin, unitOf ''u4'' saline]\<rparr>"

definition storeTwins :: db where
  \<comment> \<open>the catalogue holds two rows for the same medication, strength, unit and form\<close>
  "storeTwins = sampleStore\<lparr>drugs := [aspirin, aspirinTwin]\<rparr>"

definition aspirinData :: drugData where
  "aspirinData = \<lparr>in_medicationName = ''Aspirin'', in_genericName = None, in_strength = 81,
     in_strengthUnit = ''mg'', in_ndcId = None, in_form = ''Tablet''\<rparr>"

section \<open>Properties of the code grammar\<close>

text \<open>
  C7. The five sample verdicts of \<open>validateLotCode\<close> hold, and a two-character code is
  accepted only if its second character, upper-cased, is L or R, whether or not the
  location is required.
\<close>

theorem validateLotCode_spec:
  "validateLotCode ''A'' False \<and> validateLotCode ''AL'' False \<and> \<not> validateLotCode ''AX'' False \<and>
   \<not> validateLotCode ''A'' True \<and> (\<forall>b. \<not> validateLotCode [] b) \<and>
   (\<forall>c b. length c = 2 \<and> validateLotCode c b \<longrightarrow>
      toUpperChar (c ! 1) = CHR ''L'' \<or> toUpperChar (c ! 1) = CHR ''R'')"
proof -
  have e1: "validateLotCode ''A'' False" by code_simp
  have e2: "validateLotCode ''AL'' False" by code_simp
  have e3: "\<not> validateLotCode ''AX'' False" by code_simp
  have e4: "\<not> validateLotCode ''A'' True" by code_simp
  have e5: "\<forall>b. \<not> validateLotCode [] b" by (simp add: validateLotCode_def)
  have e6: "\<forall>c b. length c = 2 \<and> validateLotCode c b \<longrightarrow>
      toUpperChar (c ! 1) = CHR ''L'' \<or> toUpperChar (c ! 1) = CHR ''R''"
    by (auto simp: validateLotCode_def Let_def split: if_splits)
  from e1 e2 e3 e4 e5 e6 show ?thesis by blast
qed

theorem validateLotCode_spec_witness:
  "length ''AL'' = 2 \<and> validateLotCode ''AL'' False \<and>
   (toUpperChar (''AL'' ! 1) = CHR ''L'' \<or> toUpperChar (''AL'' ! 1) = CHR ''R'')"
proof -
  have h: "length ''AL'' = 2 \<and> validateLotCode ''AL'' False" by code_simp
  from validateLotCode_spec have "length ''AL'' = 2 \<and> validateLotCode ''AL'' False \<longrightarrow>
      toUpperChar (''AL'' ! 1) = CHR ''L'' \<or> toUpperChar (''AL'' ! 1) = CHR ''R''" by blast
  with h show ?thesis by blast
qed

subsection \<open>generateQRCode\<close>

lemma isDigit_digitChar: "isDigit (digitChar d)"
proof -
  define k where "k = d mod 10"
  have "k < 10" by (simp add: k_def)
  then have "k = 0 \<or> k = 1 \<or> k = 2 \<or> k = 3 \<or> k = 4 \<or> k = 5 \<or> k = 6 \<or> k = 7 \<or> k = 8 \<or> k = 9"
    by arith
  then have "isDigit (''0123456789'' ! k)" by (auto simp: isDigit_def)
  then show ?thesis by (simp add: digitChar_def k_def)
qed

lemma isDigit_not_dot: "isDigit c \<Longrightarrow> c \<noteq> CHR ''.''"
  by (auto simp: isDigit_def)

lemma showNat_digits: "\<forall>c\<in>set (showNat n). isDigit c"
proof (induction n rule: showNat.induct)
  case (1 n)
  show ?case
  proof (cases "n < 10")
    case True
    then show ?thesis by (subst showNat.simps) (simp add: isDigit_digitChar)
  next
    case False
    with 1 show ?thesis by (subst showNat.simps) (simp add: isDigit_digitChar)
  qed
qed

lemma showNat_small: "n < 10 \<Longrightarrow> showNat n = [digitChar n]"
  by (subst showNat.simps) simp

lemma showNat_length_pos: "0 < length (showNat n)"
  by (subst showNat.simps) simp

lemma showNat_length2: "10 \<le> n \<Longrightarrow> 2 \<le> length (showNat n)"
  using showNat_length_pos [of "n div 10"] by (subst showNat.simps) (simp add: Suc_le_eq)

lemma showNat_length2_eq: "10 \<le> n \<Longrightarrow> n < 100 \<Longrightarrow> length (showNat n) = 2"
  by (subst showNat.simps) (simp add: showNat_small)

lemma showNat_length3: "100 \<le> n \<Longrightarrow> 3 \<le> length (showNat n)"
  using showNat_length2 [of "n div 10"] by (subst showNat.simps) simp

lemma doseNum_digits:
  assumes "\<forall>c\<in>set ds. isDigit c" and "\<forall>c\<in>set u. \<not> isDigit c \<and> c \<noteq> CHR ''.''"
  shows "doseNum (ds @ u) = take 2 (padStart 2 CHR ''0'' ds)"
proof -
  have f: "filter (\<lambda>c. isDigit c \<or> c = CHR ''.'') (ds @ u) = ds"
    using assms by (simp add: filter_id_conv filter_empty_conv)
  have t: "takeWhile (\<lambda>c. c \<noteq> CHR ''.'') ds = ds"
    using assms(1) by (simp add: takeWhile_eq_all_conv isDigit_not_dot)
  show ?thesis by (simp only: doseNum_def f t)
qed

lemma length_doseNum: "length (doseNum ds) = 2"
  by (simp add: doseNum_def padStart_def)

lemma length_medCode: "length (medCode m) = 4"
  by (simp add: medCode_def padEnd_def toUpperCase_def)

lemma length_dateStr:
  assumes "getMonth d < 12" "getDate d < 100" "10 \<le> getFullYear d"
  shows "length (dateStr d) = 6"
proof -
  have m: "length (padStart 2 CHR ''0'' (showNat (getMonth d + 1))) = 2"
  proof (cases "getMonth d + 1 < 10")
    case True
    then show ?thesis by (simp add: padStart_def showNat_small)
  next
    case False
    with assms(1) have "length (showNat (getMonth d + 1)) = 2" by (intro showNat_length2_eq) simp_all
    then show ?thesis by (simp add: padStart_def)
  qed
  have dd: "length (padStart 2 CHR ''0'' (showNat (getDate d))) = 2"
  proof (cases "getDate d < 10")
    case True
    then show ?thesis by (simp add: padStart_def showNat_small)
  next
    case False
    with assms(2) have "length (showNat (getDate d)) = 2" by (intro showNat_length2_eq) simp_all
    then show ?thesis by (simp add: padStart_def)
  qed
  have "2 \<le> length (showInt (getFullYear d))"
    using assms(3) showNat_length2 [of "nat (getFullYear d)"] by (simp add: showInt_def)
  then have y: "length (drop (length (showInt (getFullYear d)) - 2) (showInt (getFullYear d))) = 2"
    by simp
  show ?thesis using m dd y by (simp add: dateStr_def Let_def)
qed

lemma digitChar_mod: "digitChar (n mod 10) = digitChar n"
  by (simp add: digitChar_def)

lemma digitChar_zero: "digitChar 0 = CHR ''0''"
  by (simp add: digitChar_def)

lemma last_showNat: "last (showNat n) = digitChar (n mod 10)"
  by (subst showNat.simps) (simp add: digitChar_mod)

lemma showNat_two:
  assumes "n < 100"
  shows "padStart 2 CHR ''0'' (showNat n) = [digitChar (n div 10), digitChar (n mod 10)]"
proof (cases "n < 10")
  case True
  then show ?thesis by (simp add: showNat_small padStart_def digitChar_zero digitChar_mod)
next
  case False
  with assms have "n div 10 < 10" by simp
  then have "showNat (n div 10) = [digitChar (n div 10)]" by (rule showNat_small)
  with False have "showNat n = [digitChar (n div 10), digitChar (n mod 10)]"
    by (subst showNat.simps) simp
  then show ?thesis by (simp add: padStart_def)
qed

lemma drop_last_two: "xs \<noteq> [] \<Longrightarrow> drop (length (xs @ [c]) - 2) (xs @ [c]) = [last xs, c]"
  by (cases xs rule: rev_cases) simp_all

lemma year_two:
  assumes "10 \<le> y"
  shows "drop (length (showInt y) - 2) (showInt y) = [digitChar (nat y div 10 mod 10), digitChar (nat y mod 10)]"
proof -
  from assms have "\<not> nat y < 10" by simp
  then have s: "showNat (nat y) = showNat (nat y div 10) @ [digitChar (nat y mod 10)]"
    by (subst showNat.simps) simp
  have ne: "showNat (nat y div 10) \<noteq> []"
    using showNat_length_pos [of "nat y div 10"] by simp
  have "showInt y = showNat (nat y)" using assms by (simp add: showInt_def)
  then show ?thesis
    by (simp only: s drop_last_two [OF ne] last_showNat)
qed

lemma dateStr_content:
  assumes "getMonth d < 12" "getDate d < 100" "10 \<le> getFullYear d"
  shows "dateStr d =
     [digitChar ((getMonth d + 1) div 10), digitChar ((getMonth d + 1) mod 10),
      digitChar (getDate d div 10), digitChar (getDate d mod 10),
      digitChar (nat (getFullYear d) div 10 mod 10), digitChar (nat (getFullYear d) mod 10)]"
proof -
  from assms(1) have "getMonth d + 1 < 100" by simp
  note m = showNat_two [OF this]
  note dd = showNat_two [OF assms(2)]
  note y = year_two [OF assms(3)]
  show ?thesis unfolding dateStr_def Let_def m dd y by simp
qed

lemma doseNum_before_dot:
  assumes "CHR ''.'' \<notin> set a"
  shows "doseNum a = (case filter isDigit a of
                        [] \<Rightarrow> ''00'' | [c] \<Rightarrow> [CHR ''0'', c] | c1 # c2 # r \<Rightarrow> [c1, c2])"
    and "doseNum (a @ CHR ''.'' # b) = (case filter isDigit a of
                        [] \<Rightarrow> ''00'' | [c] \<Rightarrow> [CHR ''0'', c] | c1 # c2 # r \<Rightarrow> [c1, c2])"
proof -
  let ?keep = "\<lambda>c. isDigit c \<or> c = CHR ''.''"
  have fa: "filter ?keep a = filter isDigit a"
    using assms by (intro filter_cong) auto
  have nd: "\<forall>c\<in>set (filter isDigit a). c \<noteq> CHR ''.''"
    by (simp add: isDigit_not_dot)
  have t1: "takeWhile (\<lambda>c. c \<noteq> CHR ''.'') (filter isDigit a) = filter isDigit a"
    using nd by (simp add: takeWhile_eq_all_conv)
  have "filter ?keep (a @ CHR ''.'' # b) = filter isDigit a @ CHR ''.'' # filter ?keep b"
    by (simp add: fa)
  then have t2: "takeWhile (\<lambda>c. c \<noteq> CHR ''.'') (filter ?keep (a @ CHR ''.'' # b)) = filter isDigit a"
    by (simp only: takeWhile_tail [of "\<lambda>c. c \<noteq> CHR ''.''" "CHR ''.''", simplified] t1)
  have p: "take 2 (padStart 2 CHR ''0'' (filter isDigit a)) =
        (case filter isDigit a of [] \<Rightarrow> ''00'' | [c] \<Rightarrow> [CHR ''0'', c] | c1 # c2 # r \<Rightarrow> [c1, c2])"
    by (cases "filter isDigit a" rule: list.exhaust; simp add: padStart_def numeral_2_eq_2 split: list.splits)
  show "doseNum a = (case filter isDigit a of
                        [] \<Rightarrow> ''00'' | [c] \<Rightarrow> [CHR ''0'', c] | c1 # c2 # r \<Rightarrow> [c1, c2])"
    unfolding doseNum_def fa t1 by (rule p)
  show "doseNum (a @ CHR ''.'' # b) = (case filter isDigit a of
                        [] \<Rightarrow> ''00'' | [c] \<Rightarrow> [CHR ''0'', c] | c1 # c2 # r \<Rightarrow> [c1, c2])"
    unfolding doseNum_def t2 by (rule p)
qed

lemma digitVal_digitChar: "digitVal (digitChar k) = k mod 10"
proof -
  define j where "j = k mod 10"
  have "j < 10" by (simp add: j_def)
  then have "j = 0 \<or> j = 1 \<or> j = 2 \<or> j = 3 \<or> j = 4 \<or> j = 5 \<or> j = 6 \<or> j = 7 \<or> j = 8 \<or> j = 9"
    by arith
  then have "digitVal (''0123456789'' ! j) = j" by (auto simp: digitVal_def)
  then show ?thesis by (simp add: digitChar_def j_def)
qed

lemma natOfDigits_snoc: "natOfDigits (xs @ [c]) = 10 * natOfDigits xs + digitVal c"
  by (simp add: natOfDigits_def)

lemma natOfDigits_showNat: "natOfDigits (showNat n) = n"
proof (induction n rule: showNat.induct)
  case (1 n)
  show ?case
  proof (cases "n < 10")
    case True
    then have "natOfDigits (showNat n) = digitVal (digitChar n)"
      by (simp add: showNat_small natOfDigits_def)
    with True show ?thesis by (simp add: digitVal_digitChar)
  next
    case False
    then have "showNat n = showNat (n div 10) @ [digitChar (n mod 10)]"
      by (subst showNat.simps) simp
    then have "natOfDigits (showNat n) = 10 * natOfDigits (showNat (n div 10)) + digitVal (digitChar (n mod 10))"
      by (simp only: natOfDigits_snoc)
    with 1 False show ?thesis by (simp add: digitVal_digitChar)
  qed
qed

lemma sequence_two:
  assumes "0 < n" "n < 100"
  shows "generateQRCode l d m ds (Some n) =
     generateQRCode l d m ds None @ ''-'' @ [digitChar (nat n div 10), digitChar (nat n mod 10)]"
proof -
  from assms have "nat n < 100" by simp
  note t = showNat_two [OF this]
  have "showInt n = showNat (nat n)" using assms by (simp add: showInt_def)
  with assms(1) t show ?thesis by (simp add: generateQRCode_def)
qed

lemma dateStr_any_year:
  assumes "getMonth d < 12" "getDate d < 100"
  shows "dateStr d =
     [digitChar ((getMonth d + 1) div 10), digitChar ((getMonth d + 1) mod 10),
      digitChar (getDate d div 10), digitChar (getDate d mod 10)] @
     drop (length (showInt (getFullYear d)) - 2) (showInt (getFullYear d))"
proof -
  from assms(1) have "getMonth d + 1 < 100" by simp
  note m = showNat_two [OF this]
  note dd = showNat_two [OF assms(2)]
  show ?thesis unfolding dateStr_def Let_def m dd by simp
qed

lemma sequence_long:
  assumes "100 \<le> n"
  shows "generateQRCode l d m ds (Some n) = generateQRCode l d m ds None @ ''-'' @ showNat (nat n)"
proof -
  from assms have "100 \<le> nat n" by simp
  from showNat_length3 [OF this] have "padStart 2 CHR ''0'' (showNat (nat n)) = showNat (nat n)"
    by (simp add: padStart_def)
  moreover have "showInt n = showNat (nat n)" using assms by (simp add: showInt_def)
  ultimately show ?thesis using assms by (simp add: generateQRCode_def)
qed

lemma toUpperChar_other: "\<not> isLower c \<Longrightarrow> toUpperChar c = c"
  by (simp add: toUpperChar_def isLower_def)

text \<open>
  C8. \<open>generateQRCode\<close> joins the upper-cased lot code, the date as MMDDYY, the
  four-character medication code and the two-character dose code with dashes, and appends
  the sequence number, padded to two digits, only when it is positive. The date part is
  the two digits of the month number, the two digits of the day and the last two digits
  of the year. The medication code is padded with X to four characters. The dose code is
  made of the digits that stand before the first dot of the dosage: none gives 00, one
  digit is padded with 0, and of two or more digits only the first two are kept, so every
  dosage from 100 on loses digits.
\<close>

theorem generateQRCode_format:
  "generateQRCode ''BL'' \<lparr>getMonth = 1, getDate = 5, getFullYear = 2026\<rparr> ''Amlodipine'' ''5mg'' None
     = ''BL-020526-AMLO-05'' \<and>
   generateQRCode ''BL'' \<lparr>getMonth = 1, getDate = 5, getFullYear = 2026\<rparr> ''Amlodipine'' ''5mg'' (Some 2)
     = ''BL-020526-AMLO-05-02'' \<and>
   (\<forall>l d m ds. generateQRCode l d m ds None =
      toUpperCase l @ ''-'' @ dateStr d @ ''-'' @ medCode m @ ''-'' @ doseNum ds) \<and>
   (\<forall>l d m ds n. generateQRCode l d m ds (Some n) =
      (if 0 < n then generateQRCode l d m ds None @ ''-'' @ padStart 2 CHR ''0'' (showInt n)
       else generateQRCode l d m ds None)) \<and>
   (\<forall>d. getMonth d < 12 \<and> getDate d < 100 \<and> 10 \<le> getFullYear d \<longrightarrow> length (dateStr d) = 6) \<and>
   (\<forall>m. length (medCode m) = 4 \<and>
        medCode m = (let a = toUpperCase (take 4 (filter isAlnum m)) in a @ replicate (4 - length a) CHR ''X'')) \<and>
   (\<forall>ds. length (doseNum ds) = 2) \<and>
   (\<forall>n u. n < 10 \<and> (\<forall>c\<in>set u. \<not> isDigit c \<and> c \<noteq> CHR ''.'') \<longrightarrow>
      doseNum (showNat n @ u) = [CHR ''0'', digitChar n]) \<and>
   (\<forall>n u. 10 \<le> n \<and> (\<forall>c\<in>set u. \<not> isDigit c \<and> c \<noteq> CHR ''.'') \<longrightarrow>
      doseNum (showNat n @ u) = take 2 (showNat n)) \<and>
   (\<forall>n. 100 \<le> n \<longrightarrow> 2 < length (showNat n)) \<and>
   (\<forall>d. getMonth d < 12 \<and> getDate d < 100 \<and> 10 \<le> getFullYear d \<longrightarrow>
      dateStr d =
        [digitChar ((getMonth d + 1) div 10), digitChar ((getMonth d + 1) mod 10),
         digitChar (getDate d div 10), digitChar (getDate d mod 10),
         digitChar (nat (getFullYear d) div 10 mod 10), digitChar (nat (getFullYear d) mod 10)]) \<and>
   (\<forall>a b. CHR ''.'' \<notin> set a \<longrightarrow>
      doseNum a = (case filter isDigit a of
                     [] \<Rightarrow> ''00'' | [c] \<Rightarrow> [CHR ''0'', c] | c1 # c2 # r \<Rightarrow> [c1, c2]) \<and>
      doseNum (a @ CHR ''.'' # b) = (case filter isDigit a of
                     [] \<Rightarrow> ''00'' | [c] \<Rightarrow> [CHR ''0'', c] | c1 # c2 # r \<Rightarrow> [c1, c2])) \<and>
   (\<forall>l d m ds n. 0 < n \<and> n < 100 \<longrightarrow>
      generateQRCode l d m ds (Some n) =
        generateQRCode l d m ds None @ ''-'' @ [digitChar (nat n div 10), digitChar (nat n mod 10)]) \<and>
   (\<forall>n. natOfDigits (showNat n) = n) \<and>
   map digitChar [0, 1, 2, 3, 4, 5, 6, 7, 8, 9] = ''0123456789'' \<and>
   generateQRCode ''cr'' \<lparr>getMonth = 11, getDate = 31, getFullYear = 2005\<rparr> ''Vit. D3'' ''2.5mg'' (Some 12)
     = ''CR-123105-VITD-02-12'' \<and>
   medCode ''Zinc'' = ''ZINC'' \<and>
   medCode ''ASA'' = ''ASAX'' \<and>
   (\<forall>d. getMonth d < 12 \<and> getDate d < 100 \<longrightarrow>
      dateStr d =
        [digitChar ((getMonth d + 1) div 10), digitChar ((getMonth d + 1) mod 10),
         digitChar (getDate d div 10), digitChar (getDate d mod 10)] @
        drop (length (showInt (getFullYear d)) - 2) (showInt (getFullYear d))) \<and>
   (\<forall>l d m ds n. 100 \<le> n \<longrightarrow>
      generateQRCode l d m ds (Some n) = generateQRCode l d m ds None @ ''-'' @ showNat (nat n)) \<and>
   map toUpperChar ''abcdefghijklmnopqrstuvwxyz'' = ''ABCDEFGHIJKLMNOPQRSTUVWXYZ'' \<and>
   (\<forall>c. \<not> isLower c \<longrightarrow> toUpperChar c = c) \<and>
   (\<forall>s. toUpperCase s = map toUpperChar s)"
proof -
  have e1: "generateQRCode ''BL'' \<lparr>getMonth = 1, getDate = 5, getFullYear = 2026\<rparr> ''Amlodipine'' ''5mg'' None
     = ''BL-020526-AMLO-05''"
    by code_simp
  have e2: "generateQRCode ''BL'' \<lparr>getMonth = 1, getDate = 5, getFullYear = 2026\<rparr> ''Amlodipine'' ''5mg'' (Some 2)
     = ''BL-020526-AMLO-05-02''"
    by code_simp
  have g1: "(\<forall>l d m ds. generateQRCode l d m ds None =
      toUpperCase l @ ''-'' @ dateStr d @ ''-'' @ medCode m @ ''-'' @ doseNum ds)"
    by (simp add: generateQRCode_def baseCode_def)
  have g2: "(\<forall>l d m ds n. generateQRCode l d m ds (Some n) =
      (if 0 < n then generateQRCode l d m ds None @ ''-'' @ padStart 2 CHR ''0'' (showInt n)
       else generateQRCode l d m ds None))"
    by (simp add: generateQRCode_def)
  have g3: "(\<forall>d. getMonth d < 12 \<and> getDate d < 100 \<and> 10 \<le> getFullYear d \<longrightarrow> length (dateStr d) = 6)"
    using length_dateStr by blast
  have g4: "(\<forall>m. length (medCode m) = 4 \<and>
        medCode m = (let a = toUpperCase (take 4 (filter isAlnum m)) in a @ replicate (4 - length a) CHR ''X''))"
    by (simp add: length_medCode) (simp add: medCode_def padEnd_def Let_def)
  have g5: "(\<forall>ds. length (doseNum ds) = 2)"
    by (simp add: length_doseNum)
  have g6: "(\<forall>n u. n < 10 \<and> (\<forall>c\<in>set u. \<not> isDigit c \<and> c \<noteq> CHR ''.'') \<longrightarrow>
      doseNum (showNat n @ u) = [CHR ''0'', digitChar n])"
  proof (intro allI impI)
    fix n :: nat and u :: string assume h: "n < 10 \<and> (\<forall>c\<in>set u. \<not> isDigit c \<and> c \<noteq> CHR ''.'')"
    then have "doseNum (showNat n @ u) = take 2 (padStart 2 CHR ''0'' (showNat n))"
      by (intro doseNum_digits [OF showNat_digits]) simp
    with h show "doseNum (showNat n @ u) = [CHR ''0'', digitChar n]"
      by (simp add: showNat_small padStart_def)
  qed
  have g7: "(\<forall>n u. 10 \<le> n \<and> (\<forall>c\<in>set u. \<not> isDigit c \<and> c \<noteq> CHR ''.'') \<longrightarrow>
      doseNum (showNat n @ u) = take 2 (showNat n))"
  proof (intro allI impI)
    fix n :: nat and u :: string assume h: "10 \<le> n \<and> (\<forall>c\<in>set u. \<not> isDigit c \<and> c \<noteq> CHR ''.'')"
    then have "doseNum (showNat n @ u) = take 2 (padStart 2 CHR ''0'' (showNat n))"
      by (intro doseNum_digits [OF showNat_digits]) simp
    moreover from h have "2 \<le> length (showNat n)" by (simp add: showNat_length2)
    ultimately show "doseNum (showNat n @ u) = take 2 (showNat n)"
      by (simp add: padStart_def)
  qed
  have g8: "(\<forall>n. 100 \<le> n \<longrightarrow> 2 < length (showNat n))"
  proof (intro allI impI)
    fix n :: nat assume "100 \<le> n"
    from showNat_length3 [OF this] show "2 < length (showNat n)" by simp
  qed
  have g9: "(\<forall>d. getMonth d < 12 \<and> getDate d < 100 \<and> 10 \<le> getFullYear d \<longrightarrow>
      dateStr d =
        [digitChar ((getMonth d + 1) div 10), digitChar ((getMonth d + 1) mod 10),
         digitChar (getDate d div 10), digitChar (getDate d mod 10),
         digitChar (nat (getFullYear d) div 10 mod 10), digitChar (nat (getFullYear d) mod 10)])"
    using dateStr_content by blast
  have g10: "(\<forall>a b. CHR ''.'' \<notin> set a \<longrightarrow>
      doseNum a = (case filter isDigit a of
                     [] \<Rightarrow> ''00'' | [c] \<Rightarrow> [CHR ''0'', c] | c1 # c2 # r \<Rightarrow> [c1, c2]) \<and>
      doseNum (a @ CHR ''.'' # b) = (case filter isDigit a of
                     [] \<Rightarrow> ''00'' | [c] \<Rightarrow> [CHR ''0'', c] | c1 # c2 # r \<Rightarrow> [c1, c2]))"
    using doseNum_before_dot by blast
  have g11: "(\<forall>l d m ds n. 0 < n \<and> n < 100 \<longrightarrow>
      generateQRCode l d m ds (Some n) =
        generateQRCode l d m ds None @ ''-'' @ [digitChar (nat n div 10), digitChar (nat n mod 10)])"
    using sequence_two by blast
  have g12: "(\<forall>n. natOfDigits (showNat n) = n)"
    by (simp add: natOfDigits_showNat)
  have g13: "map digitChar [0, 1, 2, 3, 4, 5, 6, 7, 8, 9] = ''0123456789''"
    by code_simp
  have e3: "generateQRCode ''cr'' \<lparr>getMonth = 11, getDate = 31, getFullYear = 2005\<rparr> ''Vit. D3'' ''2.5mg'' (Some 12)
     = ''CR-123105-VITD-02-12''"
    by code_simp
  have e4: "medCode ''Zinc'' = ''ZINC''"
    by code_simp
  have e5: "medCode ''ASA'' = ''ASAX''"
    by code_simp
  have g14: "(\<forall>d. getMonth d < 12 \<and> getDate d < 100 \<longrightarrow>
      dateStr d =
        [digitChar ((getMonth d + 1) div 10), digitChar ((getMonth d + 1) mod 10),
         digitChar (getDate d div 10), digitChar (getDate d mod 10)] @
        drop (length (showInt (getFullYear d)) - 2) (showInt (getFullYear d)))"
    using dateStr_any_year by blast
  have g15: "(\<forall>l d m ds n. 100 \<le> n \<longrightarrow>
      generateQRCode l d m ds (Some n) = generateQRCode l d m ds None @ ''-'' @ showNat (nat n))"
    using sequence_long by blast
  have g16: "map toUpperChar ''abcdefghijklmnopqrstuvwxyz'' = ''ABCDEFGHIJKLMNOPQRSTUVWXYZ''"
    by code_simp
  have g17: "(\<forall>c. \<not> isLower c \<longrightarrow> toUpperChar c = c)"
    by (simp add: toUpperChar_other)
  have g18: "(\<forall>s. toUpperCase s = map toUpperChar s)"
    by (simp add: toUpperCase_def)
  show ?thesis
    by (intro conjI) (rule e1 e2 g1 g2 g3 g4 g5 g6 g7 g8 g9 g10 g11 g12 g13 e3 e4 e5 g14 g15 g16 g17 g18)+
qed

theorem generateQRCode_format_witness:
  "doseNum (showNat 500 @ ''mg'') = ''50'' \<and> doseNum (showNat 50 @ ''mg'') = ''50'' \<and>
   doseNum (showNat 5 @ ''mg'') = ''05'' \<and> 2 < length (showNat 500) \<and>
   length (dateStr \<lparr>getMonth = 1, getDate = 5, getFullYear = 2026\<rparr>) = 6 \<and>
   dateStr \<lparr>getMonth = 11, getDate = 31, getFullYear = 2005\<rparr> = ''123105'' \<and>
   doseNum ''2.5mg'' = ''02'' \<and> doseNum ''12.75 mg'' = ''12'' \<and> doseNum ''mg'' = ''00'' \<and>
   generateQRCode ''BL'' \<lparr>getMonth = 1, getDate = 5, getFullYear = 2026\<rparr> ''Amlodipine'' ''5mg'' (Some 7) =
     generateQRCode ''BL'' \<lparr>getMonth = 1, getDate = 5, getFullYear = 2026\<rparr> ''Amlodipine'' ''5mg'' None @ ''-07''"
proof -
  note fmt = generateQRCode_format
  note r5 = fmt [THEN conjunct2, THEN conjunct2, THEN conjunct2, THEN conjunct2, THEN conjunct1]
  note r8 = fmt [THEN conjunct2, THEN conjunct2, THEN conjunct2, THEN conjunct2, THEN conjunct2, THEN conjunct2, THEN conjunct2, THEN conjunct1]
  note r9 = fmt [THEN conjunct2, THEN conjunct2, THEN conjunct2, THEN conjunct2, THEN conjunct2, THEN conjunct2, THEN conjunct2, THEN conjunct2, THEN conjunct1]
  note r10 = fmt [THEN conjunct2, THEN conjunct2, THEN conjunct2, THEN conjunct2, THEN conjunct2, THEN conjunct2, THEN conjunct2, THEN conjunct2, THEN conjunct2, THEN conjunct1]
  note r11 = fmt [THEN conjunct2, THEN conjunct2, THEN conjunct2, THEN conjunct2, THEN conjunct2, THEN conjunct2, THEN conjunct2, THEN conjunct2, THEN conjunct2, THEN conjunct2, THEN conjunct1]
  note r12 = fmt [THEN conjunct2, THEN conjunct2, THEN conjunct2, THEN conjunct2, THEN conjunct2, THEN conjunct2, THEN conjunct2, THEN conjunct2, THEN conjunct2, THEN conjunct2, THEN conjunct2, THEN conjunct1]
  note r13 = fmt [THEN conjunct2, THEN conjunct2, THEN conjunct2, THEN conjunct2, THEN conjunct2, THEN conjunct2, THEN conjunct2, THEN conjunct2, THEN conjunct2, THEN conjunct2, THEN conjunct2, THEN conjunct2, THEN conjunct1]
  have u: "\<forall>c\<in>set ''mg''. \<not> isDigit c \<and> c \<noteq> CHR ''.''" by (simp add: isDigit_def)
  have a: "doseNum (showNat 500 @ ''mg'') = take 2 (showNat 500)"
    using r9 [rule_format, of 500 "''mg''"] u by simp
  have b: "doseNum (showNat 50 @ ''mg'') = take 2 (showNat 50)"
    using r9 [rule_format, of 50 "''mg''"] u by simp
  have c: "doseNum (showNat 5 @ ''mg'') = [CHR ''0'', digitChar 5]"
    using r8 [rule_format, of 5 "''mg''"] u by simp
  have d: "2 < length (showNat 500)" using r10 [rule_format, of 500] by simp
  have e: "length (dateStr \<lparr>getMonth = 1, getDate = 5, getFullYear = 2026\<rparr>) = 6"
    using r5 [rule_format, of "\<lparr>getMonth = 1, getDate = 5, getFullYear = 2026\<rparr>"] by simp
  have v: "take 2 (showNat 500) = ''50''" "take 2 (showNat 50) = ''50''" "[CHR ''0'', digitChar 5] = ''05''"
    by code_simp+
  have f0: "dateStr \<lparr>getMonth = 11, getDate = 31, getFullYear = 2005\<rparr> =
        [digitChar ((11 + 1) div 10), digitChar ((11 + 1) mod 10), digitChar (31 div 10), digitChar (31 mod 10),
         digitChar (nat 2005 div 10 mod 10), digitChar (nat 2005 mod 10)]"
    using r11 [rule_format, of "\<lparr>getMonth = 11, getDate = 31, getFullYear = 2005\<rparr>"] by simp
  have f1: "[digitChar ((11 + 1) div 10), digitChar ((11 + 1) mod 10), digitChar (31 div 10), digitChar (31 mod 10),
         digitChar (nat 2005 div 10 mod 10), digitChar (nat 2005 mod 10)] = ''123105''"
    by code_simp
  have f: "dateStr \<lparr>getMonth = 11, getDate = 31, getFullYear = 2005\<rparr> = ''123105''"
    using f0 f1 by (rule trans)
  have nd: "CHR ''.'' \<notin> set ''2''" "CHR ''.'' \<notin> set ''12''" "CHR ''.'' \<notin> set ''mg''" by simp_all
  have k: "(case filter isDigit ''2'' of [] \<Rightarrow> ''00'' | [c] \<Rightarrow> [CHR ''0'', c] | c1 # c2 # r \<Rightarrow> [c1, c2]) = ''02''"
    "(case filter isDigit ''12'' of [] \<Rightarrow> ''00'' | [c] \<Rightarrow> [CHR ''0'', c] | c1 # c2 # r \<Rightarrow> [c1, c2]) = ''12''"
    "(case filter isDigit ''mg'' of [] \<Rightarrow> ''00'' | [c] \<Rightarrow> [CHR ''0'', c] | c1 # c2 # r \<Rightarrow> [c1, c2]) = ''00''"
    by code_simp+
  have g: "doseNum (''2'' @ CHR ''.'' # ''5mg'') = ''02''"
    using r12 [rule_format, OF nd(1), THEN conjunct2, of "''5mg''"] k(1) by (rule trans)
  have h: "doseNum (''12'' @ CHR ''.'' # ''75 mg'') = ''12''"
    using r12 [rule_format, OF nd(2), THEN conjunct2, of "''75 mg''"] k(2) by (rule trans)
  have i: "doseNum ''mg'' = ''00''"
    using r12 [rule_format, OF nd(3), THEN conjunct1] k(3) by (rule trans)
  have j0: "generateQRCode ''BL'' \<lparr>getMonth = 1, getDate = 5, getFullYear = 2026\<rparr> ''Amlodipine'' ''5mg'' (Some 7) =
     generateQRCode ''BL'' \<lparr>getMonth = 1, getDate = 5, getFullYear = 2026\<rparr> ''Amlodipine'' ''5mg'' None @
       ''-'' @ [digitChar (nat 7 div 10), digitChar (nat 7 mod 10)]"
    using r13 [rule_format, of 7] by simp
  have j1: "''-'' @ [digitChar (nat 7 div 10), digitChar (nat 7 mod 10)] = ''-07''" by code_simp
  have j: "generateQRCode ''BL'' \<lparr>getMonth = 1, getDate = 5, getFullYear = 2026\<rparr> ''Amlodipine'' ''5mg'' (Some 7) =
     generateQRCode ''BL'' \<lparr>getMonth = 1, getDate = 5, getFullYear = 2026\<rparr> ''Amlodipine'' ''5mg'' None @ ''-07''"
    using j0 by (simp only: j1)
  from g have g': "doseNum ''2.5mg'' = ''02''" by simp
  from h have h': "doseNum ''12.75 mg'' = ''12''" by simp
  from a b c d e v f g' h' i j show ?thesis by simp
qed

subsection \<open>parseDosage\<close>

















section \<open>Properties of the search engine\<close>

subsection \<open>The loops of searchDrugs\<close>

lemma toResult_fields [simp]:
  "ndcId (toResult b d) = ndc_id d"
  "inInventory (toResult b d) = b"
  "medicationName (toResult b d) = medication_name d"
  "res_strength (toResult b d) = strength d"
  "strengthUnit (toResult b d) = strength_unit d"
  by (simp_all add: toResult_def)

lemma ndcMatch_Inr: "ndcMatch n d = Inr b \<Longrightarrow> ndc_id d \<noteq> None"
  by (auto simp: ndcMatch_def split: option.splits)

text \<open>
  A run of the inventory loop that does not raise appends the results of a subsequence
  \<open>new\<close> of the units' drugs; their NDCs are present, pairwise different and not seen
  before.
\<close>

lemma inventoryLoop_Inr:
  "inventoryLoop q n us (seen, res) = Inr (seen', res') \<Longrightarrow>
   \<exists>new. seen' = seen @ map ndc_id new \<and> res' = res @ map (toResult True) new \<and>
         subseq new (List.map_filter unit_drug us) \<and> distinct (map ndc_id new) \<and>
         set (map ndc_id new) \<inter> set seen = {} \<and> None \<notin> set (map ndc_id new)"
proof (induction us arbitrary: seen res)
  case Nil
  then show ?case by simp
next
  case (Cons u us)
  show ?case
  proof (cases "unit_drug u")
    case None
    with Cons.prems have "inventoryLoop q n us (seen, res) = Inr (seen', res')" by simp
    from Cons.IH [OF this] None show ?thesis by (simp add: List.map_filter_simps)
  next
    case (Some d)
    from Cons.prems Some obtain nm where nm: "ndcMatch n d = Inr nm"
      by (cases "ndcMatch n d") auto
    from Cons.prems Some nm obtain sm where sm: "nameMatch q d = Inr sm"
      by (cases "nameMatch q d") auto
    have dn: "ndc_id d \<noteq> None" using nm by (rule ndcMatch_Inr)
    show ?thesis
    proof (cases "(nm \<or> sm) \<and> ndc_id d \<notin> set seen")
      case True
      with Cons.prems Some nm sm
      have "inventoryLoop q n us (seen @ [ndc_id d], res @ [toResult True d]) = Inr (seen', res')"
        by simp
      from Cons.IH [OF this] obtain new where
        new: "seen' = (seen @ [ndc_id d]) @ map ndc_id new"
          "res' = (res @ [toResult True d]) @ map (toResult True) new"
          "subseq new (List.map_filter unit_drug us)" "distinct (map ndc_id new)"
          "set (map ndc_id new) \<inter> set (seen @ [ndc_id d]) = {}" "None \<notin> set (map ndc_id new)"
        by blast
      have "seen' = seen @ map ndc_id (d # new)" using new(1) by simp
      moreover have "res' = res @ map (toResult True) (d # new)" using new(2) by simp
      moreover have "subseq (d # new) (List.map_filter unit_drug (u # us))"
        using new(3) Some by (simp add: List.map_filter_simps)
      moreover have "distinct (map ndc_id (d # new))" using new(4,5) by auto
      moreover have "set (map ndc_id (d # new)) \<inter> set seen = {}" using new(5) True by auto
      moreover have "None \<notin> set (map ndc_id (d # new))" using new(6) dn by auto
      ultimately show ?thesis by blast
    next
      case False
      with Cons.prems Some nm sm
      have "inventoryLoop q n us (seen, res) = Inr (seen', res')" by auto
      from Cons.IH [OF this] obtain new where
        new: "seen' = seen @ map ndc_id new" "res' = res @ map (toResult True) new"
          "subseq new (List.map_filter unit_drug us)" "distinct (map ndc_id new)"
          "set (map ndc_id new) \<inter> set seen = {}" "None \<notin> set (map ndc_id new)"
        by blast
      have "subseq new (d # List.map_filter unit_drug us)"
        using new(3) by (rule list_emb_Cons)
      then have "subseq new (List.map_filter unit_drug (u # us))"
        using Some by (simp add: List.map_filter_simps)
      with new show ?thesis by blast
    qed
  qed
qed

lemma catalogLoop_shape:
  "\<exists>new. catalogLoop ds (seen, res) = (seen @ map ndc_id new, res @ map (toResult False) new) \<and>
         subseq new ds \<and> distinct (map ndc_id new) \<and> set (map ndc_id new) \<inter> set seen = {}"
proof (induction ds arbitrary: seen res)
  case Nil
  show ?case by simp
next
  case (Cons d ds)
  show ?case
  proof (cases "ndc_id d \<in> set seen")
    case True
    from Cons.IH [of seen res] obtain new where
      new: "catalogLoop ds (seen, res) = (seen @ map ndc_id new, res @ map (toResult False) new)"
        "subseq new ds" "distinct (map ndc_id new)" "set (map ndc_id new) \<inter> set seen = {}"
      by blast
    have "catalogLoop (d # ds) (seen, res) = (seen @ map ndc_id new, res @ map (toResult False) new)"
      using True new(1) by simp
    moreover have "subseq new (d # ds)" using new(2) by (rule list_emb_Cons)
    ultimately show ?thesis using new(3,4) by blast
  next
    case False
    from Cons.IH [of "seen @ [ndc_id d]" "res @ [toResult False d]"] obtain new where
      new: "catalogLoop ds (seen @ [ndc_id d], res @ [toResult False d]) =
              ((seen @ [ndc_id d]) @ map ndc_id new, (res @ [toResult False d]) @ map (toResult False) new)"
        "subseq new ds" "distinct (map ndc_id new)"
        "set (map ndc_id new) \<inter> set (seen @ [ndc_id d]) = {}"
      by blast
    have "catalogLoop (d # ds) (seen, res) =
            (seen @ map ndc_id (d # new), res @ map (toResult False) (d # new))"
      using False new(1) by simp
    moreover have "subseq (d # new) (d # ds)" using new(2) by simp
    moreover have "distinct (map ndc_id (d # new))" using new(3,4) by auto
    moreover have "set (map ndc_id (d # new)) \<inter> set seen = {}" using new(4) False by auto
    ultimately show ?thesis by blast
  qed
qed

text \<open>
  The rows the two queries of \<open>searchDrugs\<close> deliver: the drugs of the clinic's in-stock
  units, and the rows of the catalogue query; a failed read delivers none.
\<close>

lemma searchDrugs_shape:
  assumes "searchDrugs s query clinicId = Inr rs"
  shows "\<exists>inv cat.
           rs = take 10 (map (toResult True) inv @ map (toResult False) cat) \<and>
           subseq inv (case inStockUnits s clinicId of None \<Rightarrow> [] | Some us \<Rightarrow> List.map_filter unit_drug us) \<and>
           subseq cat (case drugsOr s (drugsFilter (normalizeNDC (trim query)) (trim query)) 20 of
                         None \<Rightarrow> [] | Some ds \<Rightarrow> ds) \<and>
           distinct (map ndc_id (inv @ cat)) \<and> None \<notin> set (map ndc_id inv)"
proof (cases "query = [] \<or> length (trim query) < 2")
  case True
  with assms have "rs = []" by (simp add: searchDrugs_def)
  then have "rs = take 10 (map (toResult True) [] @ map (toResult False) []) \<and>
      subseq [] (case inStockUnits s clinicId of None \<Rightarrow> [] | Some us \<Rightarrow> List.map_filter unit_drug us) \<and>
      subseq [] (case drugsOr s (drugsFilter (normalizeNDC (trim query)) (trim query)) 20 of
                         None \<Rightarrow> [] | Some ds \<Rightarrow> ds) \<and>
      distinct (map ndc_id ([] @ [])) \<and> None \<notin> set (map ndc_id [])"
    by simp
  then show ?thesis by blast
next
  case False
  define invRows where
    "invRows = (case inStockUnits s clinicId of None \<Rightarrow> [] | Some us \<Rightarrow> List.map_filter unit_drug us)"
  define catRows where
    "catRows = (case drugsOr s (drugsFilter (normalizeNDC (trim query)) (trim query)) 20 of
                  None \<Rightarrow> [] | Some ds \<Rightarrow> ds)"
  define st where
    "st = (case inStockUnits s clinicId of
             None \<Rightarrow> Inr ([], [])
           | Some inventoryDrugs \<Rightarrow>
               inventoryLoop (trim query) (normalizeNDC (trim query)) inventoryDrugs ([], []))"
  from assms False obtain seen res where st_ok: "st = Inr (seen, res)"
    by (cases st) (auto simp: searchDrugs_def Let_def st_def [symmetric])
  have "\<exists>inv. seen = map ndc_id inv \<and> res = map (toResult True) inv \<and> subseq inv invRows \<and>
          distinct (map ndc_id inv) \<and> None \<notin> set (map ndc_id inv)"
  proof (cases "inStockUnits s clinicId")
    case None
    with st_ok have "seen = [] \<and> res = []" by (simp add: st_def)
    then show ?thesis by simp
  next
    case (Some us)
    with st_ok have "inventoryLoop (trim query) (normalizeNDC (trim query)) us ([], []) = Inr (seen, res)"
      by (simp add: st_def)
    from inventoryLoop_Inr [OF this] Some show ?thesis by (simp add: invRows_def)
  qed
  then obtain inv where inv: "seen = map ndc_id inv" "res = map (toResult True) inv"
    "subseq inv invRows" "distinct (map ndc_id inv)" "None \<notin> set (map ndc_id inv)"
    by blast
  from catalogLoop_shape [of catRows seen res] obtain cat where
    cat: "catalogLoop catRows (seen, res) = (seen @ map ndc_id cat, res @ map (toResult False) cat)"
      "subseq cat catRows" "distinct (map ndc_id cat)" "set (map ndc_id cat) \<inter> set seen = {}"
    by blast
  have "rs = take 10 (snd (catalogLoop catRows (seen, res)))"
    using assms False st_ok
    by (cases "drugsOr s (drugsFilter (normalizeNDC (trim query)) (trim query)) 20")
       (auto simp: searchDrugs_def Let_def st_def [symmetric] catRows_def)
  then have "rs = take 10 (map (toResult True) inv @ map (toResult False) cat)"
    using cat(1) inv(2) by simp
  moreover have "distinct (map ndc_id (inv @ cat))"
    using inv(1,4) cat(3,4) by auto
  ultimately show ?thesis using inv(3,5) cat(2) unfolding invRows_def catRows_def by blast
qed

lemma searchDrugs_distinct_ndc:
  assumes "searchDrugs s query clinicId = Inr rs"
  shows "distinct (map ndcId rs)"
proof -
  from searchDrugs_shape [OF assms] obtain inv cat where
    rs: "rs = take 10 (map (toResult True) inv @ map (toResult False) cat)"
    and d: "distinct (map ndc_id (inv @ cat))"
    by blast
  have e: "map ndcId rs = take 10 (map ndc_id (inv @ cat))"
    by (simp add: rs take_map comp_def)
  show ?thesis unfolding e using d by (rule distinct_take)
qed

subsection \<open>The loops of searchMedicationsByName\<close>

lemma medInventoryLoop_shape:
  "\<exists>new. medInventoryLoop numStr q us (seen, res) =
           (seen @ map (medKey numStr) new, res @ map (toResult True) new) \<and>
         subseq new (List.map_filter unit_drug us) \<and> distinct (map (medKey numStr) new) \<and>
         set (map (medKey numStr) new) \<inter> set seen = {}"
proof (induction us arbitrary: seen res)
  case Nil
  show ?case by simp
next
  case (Cons u us)
  show ?case
  proof (cases "unit_drug u")
    case None
    from Cons.IH [of seen res] None show ?thesis by (simp add: List.map_filter_simps)
  next
    case (Some d)
    show ?thesis
    proof (cases "medNameMatch q d \<and> medKey numStr d \<notin> set seen")
      case True
      from Cons.IH [of "seen @ [medKey numStr d]" "res @ [toResult True d]"] obtain new where
        new: "medInventoryLoop numStr q us (seen @ [medKey numStr d], res @ [toResult True d]) =
                ((seen @ [medKey numStr d]) @ map (medKey numStr) new,
                 (res @ [toResult True d]) @ map (toResult True) new)"
          "subseq new (List.map_filter unit_drug us)" "distinct (map (medKey numStr) new)"
          "set (map (medKey numStr) new) \<inter> set (seen @ [medKey numStr d]) = {}"
        by blast
      have "medInventoryLoop numStr q (u # us) (seen, res) =
              (seen @ map (medKey numStr) (d # new), res @ map (toResult True) (d # new))"
        using True Some new(1) by simp
      moreover have "subseq (d # new) (List.map_filter unit_drug (u # us))"
        using new(2) Some by (simp add: List.map_filter_simps)
      moreover have "distinct (map (medKey numStr) (d # new))" using new(3,4) by auto
      moreover have "set (map (medKey numStr) (d # new)) \<inter> set seen = {}"
        using new(4) True by auto
      ultimately show ?thesis by blast
    next
      case False
      from Cons.IH [of seen res] obtain new where
        new: "medInventoryLoop numStr q us (seen, res) =
                (seen @ map (medKey numStr) new, res @ map (toResult True) new)"
          "subseq new (List.map_filter unit_drug us)" "distinct (map (medKey numStr) new)"
          "set (map (medKey numStr) new) \<inter> set seen = {}"
        by blast
      have "medInventoryLoop numStr q (u # us) (seen, res) =
              (seen @ map (medKey numStr) new, res @ map (toResult True) new)"
        using False Some new(1) by auto
      moreover have "subseq new (d # List.map_filter unit_drug us)"
        using new(2) by (rule list_emb_Cons)
      then have "subseq new (List.map_filter unit_drug (u # us))"
        using Some by (simp add: List.map_filter_simps)
      ultimately show ?thesis using new(3,4) by blast
    qed
  qed
qed

lemma medCatalogLoop_shape:
  "\<exists>new. medCatalogLoop numStr ds (seen, res) =
           (seen @ map (medKey numStr) new, res @ map (toResult False) new) \<and>
         subseq new ds \<and> distinct (map (medKey numStr) new) \<and>
         set (map (medKey numStr) new) \<inter> set seen = {}"
proof (induction ds arbitrary: seen res)
  case Nil
  show ?case by simp
next
  case (Cons d ds)
  show ?case
  proof (cases "medKey numStr d \<in> set seen")
    case True
    from Cons.IH [of seen res] obtain new where
      new: "medCatalogLoop numStr ds (seen, res) =
              (seen @ map (medKey numStr) new, res @ map (toResult False) new)"
        "subseq new ds" "distinct (map (medKey numStr) new)"
        "set (map (medKey numStr) new) \<inter> set seen = {}"
      by blast
    have "medCatalogLoop numStr (d # ds) (seen, res) =
            (seen @ map (medKey numStr) new, res @ map (toResult False) new)"
      using True new(1) by simp
    moreover have "subseq new (d # ds)" using new(2) by (rule list_emb_Cons)
    ultimately show ?thesis using new(3,4) by blast
  next
    case False
    from Cons.IH [of "seen @ [medKey numStr d]" "res @ [toResult False d]"] obtain new where
      new: "medCatalogLoop numStr ds (seen @ [medKey numStr d], res @ [toResult False d]) =
              ((seen @ [medKey numStr d]) @ map (medKey numStr) new,
               (res @ [toResult False d]) @ map (toResult False) new)"
        "subseq new ds" "distinct (map (medKey numStr) new)"
        "set (map (medKey numStr) new) \<inter> set (seen @ [medKey numStr d]) = {}"
      by blast
    have "medCatalogLoop numStr (d # ds) (seen, res) =
            (seen @ map (medKey numStr) (d # new), res @ map (toResult False) (d # new))"
      using False new(1) by simp
    moreover have "subseq (d # new) (d # ds)" using new(2) by simp
    moreover have "distinct (map (medKey numStr) (d # new))" using new(3,4) by auto
    moreover have "set (map (medKey numStr) (d # new)) \<inter> set seen = {}"
      using new(4) False by auto
    ultimately show ?thesis by blast
  qed
qed

subsection \<open>Sorting with a comparator\<close>

lemma sortBy_Cons: "sortBy cmp (x # xs) = insertBy cmp x (sortBy cmp xs)"
  by (simp add: sortBy_def)

lemma set_insertBy: "set (insertBy cmp x ys) = insert x (set ys)"
  by (induction ys) auto

lemma length_insertBy: "length (insertBy cmp x ys) = Suc (length ys)"
  by (induction ys) auto

lemma distinct_map_insertBy:
  "distinct (map f (insertBy cmp x ys)) = distinct (map f (x # ys))"
  by (induction ys) (auto simp: set_insertBy)

lemma set_sortBy: "set (sortBy cmp xs) = set xs"
  by (induction xs) (simp_all add: sortBy_def set_insertBy)

lemma length_sortBy: "length (sortBy cmp xs) = length xs"
  by (induction xs) (simp_all add: sortBy_def length_insertBy)

lemma distinct_map_sortBy: "distinct (map f (sortBy cmp xs)) = distinct (map f xs)"
proof (induction xs)
  case Nil
  show ?case by (simp add: sortBy_def)
next
  case (Cons x xs)
  have "distinct (map f (sortBy cmp (x # xs))) = distinct (map f (x # sortBy cmp xs))"
    by (simp only: sortBy_Cons distinct_map_insertBy)
  also have "\<dots> = distinct (map f (x # xs))"
    using Cons.IH by (simp add: set_sortBy)
  finally show ?case .
qed

text \<open>Insertion keeps a list sorted when the comparator is a total preorder.\<close>

lemma sorted_insertBy:
  assumes trans: "\<And>a b c. cmp a b \<le> 0 \<Longrightarrow> cmp b c \<le> 0 \<Longrightarrow> cmp a c \<le> 0"
    and total: "\<And>a b. cmp a b \<le> 0 \<or> cmp b a \<le> 0"
  shows "sorted_wrt (\<lambda>a b. cmp a b \<le> 0) ys \<Longrightarrow> sorted_wrt (\<lambda>a b. cmp a b \<le> 0) (insertBy cmp x ys)"
proof (induction ys)
  case Nil
  show ?case by simp
next
  case (Cons y ys)
  show ?case
  proof (cases "cmp x y \<le> 0")
    case True
    have "\<forall>z\<in>set ys. cmp x z \<le> 0"
      using Cons.prems True trans by auto
    with True Cons.prems show ?thesis by simp
  next
    case False
    with total [of x y] have "cmp y x \<le> 0" by simp
    with False Cons show ?thesis by (auto simp: set_insertBy)
  qed
qed

lemma sorted_sortBy:
  assumes "\<And>a b c. cmp a b \<le> 0 \<Longrightarrow> cmp b c \<le> 0 \<Longrightarrow> cmp a c \<le> 0"
    and "\<And>a b. cmp a b \<le> 0 \<or> cmp b a \<le> 0"
  shows "sorted_wrt (\<lambda>a b. cmp a b \<le> 0) (sortBy cmp xs)"
proof (induction xs)
  case Nil
  show ?case by (simp add: sortBy_def)
next
  case (Cons x xs)
  from sorted_insertBy [of cmp, OF assms Cons.IH] show ?case by (simp only: sortBy_Cons)
qed

text \<open>
  The comparator of \<open>searchMedicationsByName\<close> is a total preorder when the collation is
  one, and it never places a catalogue entry before an inventory entry.
\<close>

lemma compareResults_trans:
  assumes "\<And>a b c. lc a b \<le> 0 \<Longrightarrow> lc b c \<le> 0 \<Longrightarrow> lc a c \<le> (0::int)"
    and "compareResults lc x y \<le> 0" and "compareResults lc y z \<le> 0"
  shows "compareResults lc x z \<le> 0"
  using assms(2,3) assms(1) [of "medicationName x" "medicationName y" "medicationName z"]
  by (auto simp: compareResults_def split: if_splits)

lemma compareResults_total:
  assumes "\<And>a b. lc a b \<le> 0 \<or> lc b a \<le> (0::int)"
  shows "compareResults lc x y \<le> 0 \<or> compareResults lc y x \<le> 0"
  using assms [of "medicationName x" "medicationName y"]
  by (auto simp: compareResults_def)

lemma compareResults_group:
  "compareResults lc x y \<le> 0 \<Longrightarrow> inInventory y \<Longrightarrow> inInventory x"
  by (auto simp: compareResults_def split: if_splits)

lemma compareResults_name:
  "compareResults lc x y \<le> 0 \<Longrightarrow> inInventory x = inInventory y \<Longrightarrow>
   lc (medicationName x) (medicationName y) \<le> 0"
  by (auto simp: compareResults_def split: if_splits)

lemma grouped_insertBy:
  "sorted_wrt (\<lambda>a b. inInventory b \<longrightarrow> inInventory a) ys \<Longrightarrow>
   sorted_wrt (\<lambda>a b. inInventory b \<longrightarrow> inInventory a) (insertBy (compareResults lc) x ys)"
proof (induction ys)
  case Nil
  show ?case by simp
next
  case (Cons y ys)
  show ?case
  proof (cases "compareResults lc x y \<le> 0")
    case True
    then have "inInventory y \<longrightarrow> inInventory x" by (auto dest: compareResults_group)
    with True Cons.prems show ?thesis by auto
  next
    case False
    then have "inInventory x \<longrightarrow> inInventory y"
      by (auto simp: compareResults_def split: if_splits)
    with False Cons show ?thesis by (auto simp: set_insertBy)
  qed
qed

lemma grouped_sortBy:
  "sorted_wrt (\<lambda>a b. inInventory b \<longrightarrow> inInventory a) (sortBy (compareResults lc) xs)"
proof (induction xs)
  case Nil
  show ?case by (simp add: sortBy_def)
next
  case (Cons x xs)
  from grouped_insertBy [OF Cons.IH] show ?case by (simp only: sortBy_Cons)
qed

lemma searchMedicationsByName_shape:
  "\<exists>inv cat.
     searchMedicationsByName numStr lc s query clinicId =
       take 15 (sortBy (compareResults lc) (map (toResult True) inv @ map (toResult False) cat)) \<and>
     distinct (map (medKey numStr) (inv @ cat))"
proof (cases "query = [] \<or> length (trim query) < 2")
  case True
  then have "searchMedicationsByName numStr lc s query clinicId =
      take 15 (sortBy (compareResults lc) (map (toResult True) [] @ map (toResult False) [])) \<and>
      distinct (map (medKey numStr) ([] @ []))"
    by (simp add: searchMedicationsByName_def sortBy_def)
  then show ?thesis by blast
next
  case False
  define q where "q = toLowerCase (trim query)"
  define invRows where
    "invRows = (case inStockUnits s clinicId of None \<Rightarrow> [] | Some us \<Rightarrow> us)"
  define catRows where
    "catRows = (case drugsOr s (medFilter q) 30 of None \<Rightarrow> [] | Some ds \<Rightarrow> ds)"
  from medInventoryLoop_shape [of numStr q invRows "[]" "[]"] obtain inv where
    inv: "medInventoryLoop numStr q invRows ([], []) = (map (medKey numStr) inv, map (toResult True) inv)"
      "distinct (map (medKey numStr) inv)"
    by auto
  from medCatalogLoop_shape [of numStr catRows "map (medKey numStr) inv" "map (toResult True) inv"]
  obtain cat where
    cat: "medCatalogLoop numStr catRows (map (medKey numStr) inv, map (toResult True) inv) =
            (map (medKey numStr) inv @ map (medKey numStr) cat,
             map (toResult True) inv @ map (toResult False) cat)"
      "distinct (map (medKey numStr) cat)"
      "set (map (medKey numStr) cat) \<inter> set (map (medKey numStr) inv) = {}"
    by blast
  have "searchMedicationsByName numStr lc s query clinicId =
          take 15 (sortBy (compareResults lc) (snd (medCatalogLoop numStr catRows (medInventoryLoop numStr q invRows ([], [])))))"
    using False
    by (cases "inStockUnits s clinicId"; cases "drugsOr s (medFilter q) 30")
       (simp_all add: searchMedicationsByName_def Let_def q_def [symmetric] invRows_def catRows_def)
  then have "searchMedicationsByName numStr lc s query clinicId =
          take 15 (sortBy (compareResults lc) (map (toResult True) inv @ map (toResult False) cat))"
    by (simp add: inv(1) cat(1))
  moreover have "distinct (map (medKey numStr) (inv @ cat))"
    using inv(2) cat(2,3) by auto
  ultimately show ?thesis by blast
qed

subsection \<open>searchDrugs keeps first occurrences\<close>

lemma firstOccurrences_filter:
  "filter (\<lambda>y. key y \<noteq> k) (firstOccurrences key xs) = firstOccurrences key (filter (\<lambda>y. key y \<noteq> k) xs)"
proof (induction xs)
  case Nil
  show ?case by simp
next
  case (Cons x xs)
  show ?case
  proof (cases "key x = k")
    case True
    have a: "filter (\<lambda>y. key y \<noteq> k) (firstOccurrences key (x # xs)) =
             filter (\<lambda>y. key y \<noteq> k) (firstOccurrences key xs)"
      using True by simp
    show ?thesis by (simp only: a Cons.IH) (simp add: True)
  next
    case False
    have "filter (\<lambda>y. key y \<noteq> k) (filter (\<lambda>y. key y \<noteq> key x) (firstOccurrences key xs)) =
          filter (\<lambda>y. key y \<noteq> key x) (filter (\<lambda>y. key y \<noteq> k) (firstOccurrences key xs))"
      by (simp add: conj_commute)
    with False Cons.IH show ?thesis by simp
  qed
qed

lemma firstOccurrences_filter_seen:
  "filter (\<lambda>y. key y \<noteq> k) (firstOccurrences key (filter (\<lambda>y. key y \<notin> set seen) xs)) =
   firstOccurrences key (filter (\<lambda>y. key y \<notin> set (seen @ [k])) xs)"
proof -
  have "filter (\<lambda>y. key y \<noteq> k) (filter (\<lambda>y. key y \<notin> set seen) xs) =
        filter (\<lambda>y. key y \<notin> set (seen @ [k])) xs"
    by (simp add: conj_commute)
  then show ?thesis by (simp only: firstOccurrences_filter)
qed

lemma set_firstOccurrences: "set (firstOccurrences key xs) \<subseteq> set xs"
  by (induction xs) auto

lemma keys_firstOccurrences: "key ` set (firstOccurrences key xs) = key ` set xs"
proof (induction xs)
  case Nil
  show ?case by simp
next
  case (Cons x xs)
  have "key ` set (filter (\<lambda>y. key y \<noteq> key x) (firstOccurrences key xs)) =
        key ` set (firstOccurrences key xs) - {key x}"
    by auto
  with Cons.IH show ?case by auto
qed

lemma firstOccurrences_map:
  assumes "\<And>x. key' (f x) = key x"
  shows "firstOccurrences key' (map f xs) = map f (firstOccurrences key xs)"
  by (induction xs) (simp_all add: assms filter_map comp_def)

lemma firstOccurrences_append:
  "firstOccurrences key (xs @ ys) =
   firstOccurrences key xs @ firstOccurrences key (filter (\<lambda>y. key y \<notin> key ` set xs) ys)"
proof (induction xs arbitrary: ys)
  case Nil
  show ?case by simp
next
  case (Cons x xs)
  have "filter (\<lambda>y. key y \<noteq> key x) (filter (\<lambda>y. key y \<notin> key ` set xs) ys) =
        filter (\<lambda>y. key y \<notin> key ` set (x # xs)) ys"
    by (simp add: conj_commute)
  then show ?case
    by (simp add: Cons.IH firstOccurrences_filter)
qed

lemma catalogLoop_first:
  "catalogLoop ds (seen, res) =
     (seen @ map ndc_id (firstOccurrences ndc_id (filter (\<lambda>d. ndc_id d \<notin> set seen) ds)),
      res @ map (toResult False) (firstOccurrences ndc_id (filter (\<lambda>d. ndc_id d \<notin> set seen) ds)))"
proof (induction ds arbitrary: seen res)
  case Nil
  show ?case by simp
next
  case (Cons d ds)
  show ?case
  proof (cases "ndc_id d \<in> set seen")
    case True
    then show ?thesis using Cons.IH [of seen res] by simp
  next
    case False
    have "firstOccurrences ndc_id (filter (\<lambda>x. ndc_id x \<notin> set seen) (d # ds)) =
          d # filter (\<lambda>y. ndc_id y \<noteq> ndc_id d)
                (firstOccurrences ndc_id (filter (\<lambda>x. ndc_id x \<notin> set seen) ds))"
      using False by simp
    then have "firstOccurrences ndc_id (filter (\<lambda>x. ndc_id x \<notin> set seen) (d # ds)) =
          d # firstOccurrences ndc_id (filter (\<lambda>x. ndc_id x \<notin> set (seen @ [ndc_id d])) ds)"
      by (simp only: firstOccurrences_filter_seen)
    moreover have "catalogLoop (d # ds) (seen, res) =
          catalogLoop ds (seen @ [ndc_id d], res @ [toResult False d])"
      using False by simp
    ultimately show ?thesis
      by (simp only: Cons.IH [of "seen @ [ndc_id d]" "res @ [toResult False d]"]) simp
  qed
qed

lemma inventoryLoop_first:
  "inventoryLoop q n us (seen, res) = Inr (seen', res') \<Longrightarrow>
   seen' = seen @ map ndc_id (firstOccurrences ndc_id
             (filter (\<lambda>d. ndc_id d \<notin> set seen) (filter (queryMatch q n) (List.map_filter unit_drug us)))) \<and>
   res' = res @ map (toResult True) (firstOccurrences ndc_id
             (filter (\<lambda>d. ndc_id d \<notin> set seen) (filter (queryMatch q n) (List.map_filter unit_drug us))))"
proof (induction us arbitrary: seen res)
  case Nil
  then show ?case by simp
next
  case (Cons u us)
  show ?case
  proof (cases "unit_drug u")
    case None
    with Cons.prems have "inventoryLoop q n us (seen, res) = Inr (seen', res')" by simp
    from Cons.IH [OF this] None show ?thesis by (simp add: List.map_filter_simps)
  next
    case (Some d)
    from Cons.prems Some obtain nm where nm: "ndcMatch n d = Inr nm"
      by (cases "ndcMatch n d") auto
    from Cons.prems Some nm obtain sm where sm: "nameMatch q d = Inr sm"
      by (cases "nameMatch q d") auto
    have qm: "queryMatch q n d = (nm \<or> sm)" by (simp add: queryMatch_def nm sm)
    have mf: "List.map_filter unit_drug (u # us) = d # List.map_filter unit_drug us"
      using Some by (simp add: List.map_filter_simps)
    show ?thesis
    proof (cases "(nm \<or> sm) \<and> ndc_id d \<notin> set seen")
      case True
      with Cons.prems Some nm sm
      have "inventoryLoop q n us (seen @ [ndc_id d], res @ [toResult True d]) = Inr (seen', res')"
        by simp
      note ih = Cons.IH [OF this]
      have "firstOccurrences ndc_id (filter (\<lambda>x. ndc_id x \<notin> set seen)
              (filter (queryMatch q n) (List.map_filter unit_drug (u # us)))) =
            d # filter (\<lambda>y. ndc_id y \<noteq> ndc_id d)
                  (firstOccurrences ndc_id (filter (\<lambda>x. ndc_id x \<notin> set seen)
                     (filter (queryMatch q n) (List.map_filter unit_drug us))))"
        unfolding mf using True qm by simp
      then have "firstOccurrences ndc_id (filter (\<lambda>x. ndc_id x \<notin> set seen)
              (filter (queryMatch q n) (List.map_filter unit_drug (u # us)))) =
            d # firstOccurrences ndc_id (filter (\<lambda>x. ndc_id x \<notin> set (seen @ [ndc_id d]))
              (filter (queryMatch q n) (List.map_filter unit_drug us)))"
        by (simp only: firstOccurrences_filter_seen)
      with ih show ?thesis by simp
    next
      case False
      with Cons.prems Some nm sm
      have "inventoryLoop q n us (seen, res) = Inr (seen', res')" by auto
      note ih = Cons.IH [OF this]
      have "filter (\<lambda>x. ndc_id x \<notin> set seen)
              (filter (queryMatch q n) (List.map_filter unit_drug (u # us))) =
            filter (\<lambda>x. ndc_id x \<notin> set seen)
              (filter (queryMatch q n) (List.map_filter unit_drug us))"
        unfolding mf using False qm by auto
      with ih show ?thesis by (simp only:)
    qed
  qed
qed

lemma merge_first:
  "map (toResult True) (firstOccurrences ndc_id ivs) @
   map (toResult False) (firstOccurrences ndc_id
     (filter (\<lambda>d. ndc_id d \<notin> set (map ndc_id (firstOccurrences ndc_id ivs))) cat)) =
   firstOccurrences ndcId (map (toResult True) ivs @ map (toResult False) cat)"
proof -
  have k: "set (map ndc_id (firstOccurrences ndc_id ivs)) = ndc_id ` set ivs"
    by (simp add: keys_firstOccurrences)
  have i: "ndcId ` set (map (toResult True) ivs) = ndc_id ` set ivs"
    by (simp add: image_image)
  have f: "filter (\<lambda>y. ndcId y \<notin> ndc_id ` set ivs) (map (toResult False) cat) =
           map (toResult False) (filter (\<lambda>d. ndc_id d \<notin> ndc_id ` set ivs) cat)"
    by (simp add: filter_map comp_def)
  have m: "\<And>b ds. firstOccurrences ndcId (map (toResult b) ds) = map (toResult b) (firstOccurrences ndc_id ds)"
    by (rule firstOccurrences_map) simp
  show ?thesis
    by (simp only: firstOccurrences_append i f m k)
qed

lemma searchDrugs_first:
  assumes "searchDrugs s query clinicId = Inr rs" and "\<not> (query = [] \<or> length (trim query) < 2)"
  shows "rs = take 10 (firstOccurrences ndcId
           (map (toResult True)
              (filter (queryMatch (trim query) (normalizeNDC (trim query)))
                 (case inStockUnits s clinicId of None \<Rightarrow> [] | Some us \<Rightarrow> List.map_filter unit_drug us)) @
            map (toResult False)
              (case drugsOr s (drugsFilter (normalizeNDC (trim query)) (trim query)) 20 of
                 None \<Rightarrow> [] | Some ds \<Rightarrow> ds)))"
proof -
  define invRows where
    "invRows = (case inStockUnits s clinicId of None \<Rightarrow> [] | Some us \<Rightarrow> List.map_filter unit_drug us)"
  define catRows where
    "catRows = (case drugsOr s (drugsFilter (normalizeNDC (trim query)) (trim query)) 20 of
                  None \<Rightarrow> [] | Some ds \<Rightarrow> ds)"
  define ivs where "ivs = filter (queryMatch (trim query) (normalizeNDC (trim query))) invRows"
  define st where
    "st = (case inStockUnits s clinicId of
             None \<Rightarrow> Inr ([], [])
           | Some inventoryDrugs \<Rightarrow>
               inventoryLoop (trim query) (normalizeNDC (trim query)) inventoryDrugs ([], []))"
  from assms obtain seen res where st_ok: "st = Inr (seen, res)"
    by (cases st) (auto simp: searchDrugs_def Let_def st_def [symmetric])
  have sr: "seen = map ndc_id (firstOccurrences ndc_id ivs) \<and>
            res = map (toResult True) (firstOccurrences ndc_id ivs)"
  proof (cases "inStockUnits s clinicId")
    case None
    with st_ok show ?thesis by (simp add: st_def ivs_def invRows_def)
  next
    case (Some us)
    with st_ok have "inventoryLoop (trim query) (normalizeNDC (trim query)) us ([], []) = Inr (seen, res)"
      by (simp add: st_def)
    from inventoryLoop_first [OF this] Some show ?thesis by (simp add: ivs_def invRows_def)
  qed
  have "rs = take 10 (snd (catalogLoop catRows (seen, res)))"
    using assms st_ok
    by (cases "drugsOr s (drugsFilter (normalizeNDC (trim query)) (trim query)) 20")
       (auto simp: searchDrugs_def Let_def st_def [symmetric] catRows_def)
  also have "snd (catalogLoop catRows (seen, res)) =
      map (toResult True) (firstOccurrences ndc_id ivs) @
      map (toResult False) (firstOccurrences ndc_id
        (filter (\<lambda>d. ndc_id d \<notin> set (map ndc_id (firstOccurrences ndc_id ivs))) catRows))"
    by (simp only: catalogLoop_first snd_conv sr)
  also have "\<dots> = firstOccurrences ndcId (map (toResult True) ivs @ map (toResult False) catRows)"
    by (rule merge_first)
  finally show ?thesis by (simp only: ivs_def invRows_def catRows_def)
qed

subsection \<open>Deduplication and ordering\<close>

lemma distinct_map_coarser:
  assumes "distinct (map k xs)" and "\<And>x y. g x = g y \<Longrightarrow> k x = k y"
  shows "distinct (map g xs)"
proof -
  have ik: "inj_on k (set xs)" using assms(1) by (simp add: distinct_map)
  have "inj_on g (set xs)"
  proof (rule inj_onI)
    fix x y assume xy: "x \<in> set xs" "y \<in> set xs" and gg: "g x = g y"
    from gg have "k x = k y" by (rule assms(2))
    from ik this xy show "x = y" by (rule inj_onD)
  qed
  moreover have "distinct xs" using assms(1) by (simp add: distinct_map)
  ultimately show ?thesis by (simp add: distinct_map)
qed

lemma searchMedicationsByName_distinct:
  "distinct (map (\<lambda>r. (medicationName r, res_strength r, strengthUnit r))
     (searchMedicationsByName numStr lc s query clinicId))"
proof -
  from searchMedicationsByName_shape [of numStr lc s query clinicId] obtain inv cat where
    ms: "searchMedicationsByName numStr lc s query clinicId =
       take 15 (sortBy (compareResults lc) (map (toResult True) inv @ map (toResult False) cat))"
    and d: "distinct (map (medKey numStr) (inv @ cat))"
    by blast
  let ?key = "\<lambda>r. (medicationName r, res_strength r, strengthUnit r)"
  have "distinct (map (\<lambda>d. (medication_name d, strength d, strength_unit d)) (inv @ cat))"
    using d by (rule distinct_map_coarser) (simp add: medKey_def)
  moreover have "map ?key (map (toResult True) inv @ map (toResult False) cat) =
      map (\<lambda>d. (medication_name d, strength d, strength_unit d)) (inv @ cat)"
    by (simp add: comp_def)
  ultimately have "distinct (map ?key (map (toResult True) inv @ map (toResult False) cat))"
    by (simp only:)
  then have "distinct (map ?key (sortBy (compareResults lc) (map (toResult True) inv @ map (toResult False) cat)))"
    by (simp only: distinct_map_sortBy)
  then have "distinct (take 15 (map ?key (sortBy (compareResults lc) (map (toResult True) inv @ map (toResult False) cat))))"
    by (rule distinct_take)
  then show ?thesis by (simp only: ms take_map)
qed

lemma distinct_map_at_most_one:
  "distinct (map f xs) \<Longrightarrow> length (filter (\<lambda>x. f x = k) xs) \<le> 1"
proof (induction xs)
  case Nil
  show ?case by simp
next
  case (Cons x xs)
  show ?case
  proof (cases "f x = k")
    case True
    from Cons.prems have "f x \<notin> f ` set xs" by simp
    with True have "\<forall>y\<in>set xs. f y \<noteq> k" by blast
    then have "filter (\<lambda>x. f x = k) xs = []" by (simp add: filter_empty_conv)
    with True show ?thesis by simp
  next
    case False
    with Cons show ?thesis by simp
  qed
qed

text \<open>
  C5. Deduplication: a result sequence of \<open>searchDrugs\<close> holds no NDC value twice, and
  the first occurrence wins: the sequence is the first 10 of the first occurrences, by NDC,
  among the matching inventory drugs followed by the catalogue rows. A result sequence of
  \<open>searchMedicationsByName\<close> holds no triple of medication name, strength and strength
  unit twice, whatever the inventory and the catalogue contain.
\<close>

theorem deduplication_invariant:
  "(searchDrugs s query clinicId = Inr rs \<longrightarrow>
      distinct (map ndcId rs) \<and>
      (query \<noteq> [] \<and> 2 \<le> length (trim query) \<longrightarrow>
         rs = take 10 (firstOccurrences ndcId
           (map (toResult True)
              (filter (queryMatch (trim query) (normalizeNDC (trim query)))
                 (case inStockUnits s clinicId of None \<Rightarrow> [] | Some us \<Rightarrow> List.map_filter unit_drug us)) @
            map (toResult False)
              (case drugsOr s (drugsFilter (normalizeNDC (trim query)) (trim query)) 20 of
                 None \<Rightarrow> [] | Some ds \<Rightarrow> ds))))) \<and>
   distinct (map (\<lambda>r. (medicationName r, res_strength r, strengthUnit r))
     (searchMedicationsByName numStr lc s query' clinicId'))"
proof (intro conjI impI)
  assume "searchDrugs s query clinicId = Inr rs"
  then show "distinct (map ndcId rs)" by (rule searchDrugs_distinct_ndc)
next
  assume a: "searchDrugs s query clinicId = Inr rs" and "query \<noteq> [] \<and> 2 \<le> length (trim query)"
  then have "\<not> (query = [] \<or> length (trim query) < 2)" by simp
  with a show "rs = take 10 (firstOccurrences ndcId
           (map (toResult True)
              (filter (queryMatch (trim query) (normalizeNDC (trim query)))
                 (case inStockUnits s clinicId of None \<Rightarrow> [] | Some us \<Rightarrow> List.map_filter unit_drug us)) @
            map (toResult False)
              (case drugsOr s (drugsFilter (normalizeNDC (trim query)) (trim query)) 20 of
                 None \<Rightarrow> [] | Some ds \<Rightarrow> ds)))"
    by (rule searchDrugs_first)
next
  show "distinct (map (\<lambda>r. (medicationName r, res_strength r, strengthUnit r))
     (searchMedicationsByName numStr lc s query' clinicId'))"
    by (rule searchMedicationsByName_distinct)
qed

theorem deduplication_invariant_witness:
  "searchDrugs sampleStore ''zinc'' ''c1'' =
     Inr [toResult True aspirin, toResult True zinc, toResult False salbutamol] \<and>
   distinct (map ndcId [toResult True aspirin, toResult True zinc, toResult False salbutamol]) \<and>
   distinct (map (\<lambda>r. (medicationName r, res_strength r, strengthUnit r))
     (searchMedicationsByName wholeNumStr codeUnitCompare sampleStore ''in'' ''c1''))"
proof -
  have e: "searchDrugs sampleStore ''zinc'' ''c1'' =
     Inr [toResult True aspirin, toResult True zinc, toResult False salbutamol]"
    by code_simp
  note d = deduplication_invariant [of sampleStore "''zinc''" "''c1''"
      "[toResult True aspirin, toResult True zinc, toResult False salbutamol]"
      wholeNumStr codeUnitCompare "''in''" "''c1''"]
  show ?thesis
    by (intro conjI) (rule e d [THEN conjunct1, THEN mp, OF e, THEN conjunct1] d [THEN conjunct2])+
qed

text \<open>
  C6. Ordering: a result sequence of \<open>searchDrugs\<close> has at most 10 entries and one of
  \<open>searchMedicationsByName\<close> at most 15; in both, no inventory entry comes after an entry
  that is not in the inventory. \<open>searchDrugs\<close> keeps, in each group, the order in which
  the store delivered the rows. \<open>searchMedicationsByName\<close> orders each group by
  medication name, for every collation that is a total preorder.
\<close>

theorem ordering_invariant:
  "(searchDrugs s query clinicId = Inr rs \<longrightarrow>
      length rs \<le> 10 \<and>
      sorted_wrt (\<lambda>a b. inInventory b \<longrightarrow> inInventory a) rs \<and>
      (\<exists>inv cat.
         rs = take 10 (map (toResult True) inv @ map (toResult False) cat) \<and>
         subseq inv (case inStockUnits s clinicId of None \<Rightarrow> [] | Some us \<Rightarrow> List.map_filter unit_drug us) \<and>
         subseq cat (case drugsOr s (drugsFilter (normalizeNDC (trim query)) (trim query)) 20 of
                       None \<Rightarrow> [] | Some ds \<Rightarrow> ds))) \<and>
   length (searchMedicationsByName numStr lc s query' clinicId') \<le> 15 \<and>
   sorted_wrt (\<lambda>a b. inInventory b \<longrightarrow> inInventory a)
     (searchMedicationsByName numStr lc s query' clinicId') \<and>
   ((\<forall>a b c. lc a b \<le> 0 \<and> lc b c \<le> 0 \<longrightarrow> lc a c \<le> 0) \<and> (\<forall>a b. lc a b \<le> 0 \<or> lc b a \<le> 0) \<longrightarrow>
      sorted_wrt (\<lambda>a b. inInventory a = inInventory b \<longrightarrow> lc (medicationName a) (medicationName b) \<le> 0)
        (searchMedicationsByName numStr lc s query' clinicId'))"
proof (intro conjI impI)
  assume a: "searchDrugs s query clinicId = Inr rs"
  from searchDrugs_shape [OF a] obtain inv cat where
    rs: "rs = take 10 (map (toResult True) inv @ map (toResult False) cat)"
    and sub: "subseq inv (case inStockUnits s clinicId of None \<Rightarrow> [] | Some us \<Rightarrow> List.map_filter unit_drug us)"
      "subseq cat (case drugsOr s (drugsFilter (normalizeNDC (trim query)) (trim query)) 20 of
                       None \<Rightarrow> [] | Some ds \<Rightarrow> ds)"
    by blast
  show "length rs \<le> 10" by (simp add: rs)
  have "sorted_wrt (\<lambda>a b. inInventory b \<longrightarrow> inInventory a)
          (map (toResult True) inv @ map (toResult False) cat)"
    by (simp add: sorted_wrt_append sorted_wrt_map)
  then show "sorted_wrt (\<lambda>a b. inInventory b \<longrightarrow> inInventory a) rs"
    unfolding rs by (rule sorted_wrt_take)
  from rs sub show "\<exists>inv cat.
         rs = take 10 (map (toResult True) inv @ map (toResult False) cat) \<and>
         subseq inv (case inStockUnits s clinicId of None \<Rightarrow> [] | Some us \<Rightarrow> List.map_filter unit_drug us) \<and>
         subseq cat (case drugsOr s (drugsFilter (normalizeNDC (trim query)) (trim query)) 20 of
                       None \<Rightarrow> [] | Some ds \<Rightarrow> ds)"
    by blast
next
  from searchMedicationsByName_shape [of numStr lc s query' clinicId'] obtain inv cat where
    ms: "searchMedicationsByName numStr lc s query' clinicId' =
       take 15 (sortBy (compareResults lc) (map (toResult True) inv @ map (toResult False) cat))"
    by blast
  show "length (searchMedicationsByName numStr lc s query' clinicId') \<le> 15"
    by (simp add: ms)
next
  from searchMedicationsByName_shape [of numStr lc s query' clinicId'] obtain inv cat where
    ms: "searchMedicationsByName numStr lc s query' clinicId' =
       take 15 (sortBy (compareResults lc) (map (toResult True) inv @ map (toResult False) cat))"
    by blast
  show "sorted_wrt (\<lambda>a b. inInventory b \<longrightarrow> inInventory a)
     (searchMedicationsByName numStr lc s query' clinicId')"
    unfolding ms by (rule sorted_wrt_take) (rule grouped_sortBy)
next
  assume h: "(\<forall>a b c. lc a b \<le> 0 \<and> lc b c \<le> 0 \<longrightarrow> lc a c \<le> 0) \<and> (\<forall>a b. lc a b \<le> 0 \<or> lc b a \<le> 0)"
  from searchMedicationsByName_shape [of numStr lc s query' clinicId'] obtain inv cat where
    ms: "searchMedicationsByName numStr lc s query' clinicId' =
       take 15 (sortBy (compareResults lc) (map (toResult True) inv @ map (toResult False) cat))"
    by blast
  have tr: "\<And>a b c. lc a b \<le> 0 \<Longrightarrow> lc b c \<le> 0 \<Longrightarrow> lc a c \<le> 0" using h by blast
  have to: "\<And>a b. lc a b \<le> 0 \<or> lc b a \<le> 0" using h by blast
  have "sorted_wrt (\<lambda>a b. compareResults lc a b \<le> 0)
          (sortBy (compareResults lc) (map (toResult True) inv @ map (toResult False) cat))"
  proof (rule sorted_sortBy)
    fix a b c assume "compareResults lc a b \<le> 0" "compareResults lc b c \<le> 0"
    with tr show "compareResults lc a c \<le> 0" by (rule compareResults_trans)
  next
    fix a b show "compareResults lc a b \<le> 0 \<or> compareResults lc b a \<le> 0"
      using to by (rule compareResults_total)
  qed
  then have "sorted_wrt (\<lambda>a b. inInventory a = inInventory b \<longrightarrow> lc (medicationName a) (medicationName b) \<le> 0)
          (sortBy (compareResults lc) (map (toResult True) inv @ map (toResult False) cat))"
    by (rule sorted_wrt_mono_rel [rotated]) (auto dest: compareResults_name)
  then show "sorted_wrt (\<lambda>a b. inInventory a = inInventory b \<longrightarrow> lc (medicationName a) (medicationName b) \<le> 0)
        (searchMedicationsByName numStr lc s query' clinicId')"
    unfolding ms by (rule sorted_wrt_take)
qed

lemma codeUnitCompare_le: "codeUnitCompare a b \<le> 0 \<longleftrightarrow> a \<le> b"
  by (auto simp: codeUnitCompare_def)

theorem ordering_invariant_witness:
  "searchDrugs sampleStore ''zinc'' ''c1'' =
     Inr [toResult True aspirin, toResult True zinc, toResult False salbutamol] \<and>
   length [toResult True aspirin, toResult True zinc, toResult False salbutamol] \<le> 10 \<and>
   sorted_wrt (\<lambda>a b. inInventory b \<longrightarrow> inInventory a)
     [toResult True aspirin, toResult True zinc, toResult False salbutamol] \<and>
   searchMedicationsByName wholeNumStr codeUnitCompare sampleStore ''in'' ''c1'' =
     [toResult True aspirin, toResult True zinc, toResult False insulin, toResult False salbutamol] \<and>
   sorted_wrt (\<lambda>a b. inInventory a = inInventory b \<longrightarrow>
       codeUnitCompare (medicationName a) (medicationName b) \<le> 0)
     (searchMedicationsByName wholeNumStr codeUnitCompare sampleStore ''in'' ''c1'')"
proof -
  have e: "searchDrugs sampleStore ''zinc'' ''c1'' =
     Inr [toResult True aspirin, toResult True zinc, toResult False salbutamol]"
    by code_simp
  have m: "searchMedicationsByName wholeNumStr codeUnitCompare sampleStore ''in'' ''c1'' =
     [toResult True aspirin, toResult True zinc, toResult False insulin, toResult False salbutamol]"
    by code_simp
  have h: "(\<forall>a b c. codeUnitCompare a b \<le> 0 \<and> codeUnitCompare b c \<le> 0 \<longrightarrow> codeUnitCompare a c \<le> 0) \<and>
      (\<forall>a b. codeUnitCompare a b \<le> 0 \<or> codeUnitCompare b a \<le> 0)"
    unfolding codeUnitCompare_le using order_trans [where 'a = string] linear [where 'a = string]
    by blast
  note o = ordering_invariant [of sampleStore "''zinc''" "''c1''"
      "[toResult True aspirin, toResult True zinc, toResult False salbutamol]"
      wholeNumStr codeUnitCompare "''in''" "''c1''"]
  note o1 = o [THEN conjunct1, THEN mp, OF e]
  note o4 = o [THEN conjunct2, THEN conjunct2, THEN conjunct2, THEN mp, OF h]
  show ?thesis
    by (intro conjI) (rule e m o1 [THEN conjunct1] o1 [THEN conjunct2, THEN conjunct1] o4)+
qed

text \<open>
  C10. A result sequence of \<open>searchDrugs\<close> has at most one entry without an NDC: the
  absent NDC is one key of the set of seen NDCs, so the first catalogue row without an NDC
  takes it and each later one is skipped. Such an entry never comes from the inventory.
\<close>

theorem at_most_one_absent_ndc:
  "searchDrugs s query clinicId = Inr rs \<longrightarrow>
     length (filter (\<lambda>r. ndcId r = None) rs) \<le> 1 \<and>
     (\<forall>r\<in>set rs. ndcId r = None \<longrightarrow> \<not> inInventory r)"
proof
  assume a: "searchDrugs s query clinicId = Inr rs"
  have "length (filter (\<lambda>r. ndcId r = None) rs) \<le> 1"
    using searchDrugs_distinct_ndc [OF a] by (rule distinct_map_at_most_one)
  moreover have "\<forall>r\<in>set rs. ndcId r = None \<longrightarrow> \<not> inInventory r"
  proof -
    from searchDrugs_shape [OF a] obtain inv cat where
      rs: "rs = take 10 (map (toResult True) inv @ map (toResult False) cat)"
      and n: "None \<notin> set (map ndc_id inv)"
      by blast
    from n have "\<forall>d\<in>set inv. ndc_id d \<noteq> None" by (metis image_eqI list.set_map)
    then have "\<forall>r\<in>set (map (toResult True) inv @ map (toResult False) cat). ndcId r = None \<longrightarrow> \<not> inInventory r"
      by auto
    moreover have "set rs \<subseteq> set (map (toResult True) inv @ map (toResult False) cat)"
      unfolding rs by (rule set_take_subset)
    ultimately show ?thesis by (meson subsetD)
  qed
  ultimately show "length (filter (\<lambda>r. ndcId r = None) rs) \<le> 1 \<and>
     (\<forall>r\<in>set rs. ndcId r = None \<longrightarrow> \<not> inInventory r)" by blast
qed

theorem at_most_one_absent_ndc_witness:
  "searchDrugs sampleStore ''zinc'' ''c1'' =
     Inr [toResult True aspirin, toResult True zinc, toResult False salbutamol] \<and>
   ndc_id salbutamol = None \<and> ndc_id insulin = None \<and>
   or_filter sampleStore (drugsFilter (normalizeNDC ''zinc'') ''zinc'') = [zinc, salbutamol, insulin, aspirin] \<and>
   length (filter (\<lambda>r. ndcId r = None)
     [toResult True aspirin, toResult True zinc, toResult False salbutamol]) \<le> 1"
proof -
  have e: "searchDrugs sampleStore ''zinc'' ''c1'' =
     Inr [toResult True aspirin, toResult True zinc, toResult False salbutamol]"
    by code_simp
  have f: "ndc_id salbutamol = None" "ndc_id insulin = None"
    "or_filter sampleStore (drugsFilter (normalizeNDC ''zinc'') ''zinc'') = [zinc, salbutamol, insulin, aspirin]"
    by (simp_all add: salbutamol_def insulin_def sampleStore_def)
  note a = at_most_one_absent_ndc [of sampleStore "''zinc''" "''c1''"
      "[toResult True aspirin, toResult True zinc, toResult False salbutamol]", THEN mp, OF e]
  show ?thesis
    by (intro conjI) (rule e f a [THEN conjunct1])+
qed

subsection \<open>getOrCreateDrug\<close>

text \<open>
  The upsert raises exactly when neither lookup finds a single row and the insert fails,
  and the error carries the store's message.
\<close>

lemma getOrCreateDrug_raises_iff:
  "fst (getOrCreateDrug s drugData) = Inl e \<longleftrightarrow>
     (case in_ndcId drugData of None \<Rightarrow> None | Some n \<Rightarrow> if n = [] then None else drugByNDC s n) = None \<and>
     similarDrug s drugData = None \<and>
     (\<exists>message. insert_outcome s = Inl message \<and> e = Error (''Failed to create drug: '' @ message))"
  by (auto simp: getOrCreateDrug_def split: option.splits sum.splits if_splits)

lemma getOrCreateDrug_inserted:
  assumes "(case in_ndcId drugData of None \<Rightarrow> None | Some n \<Rightarrow> if n = [] then None else drugByNDC s n) = None"
    and "similarDrug s drugData = None" and "insert_outcome s = Inr newId"
  shows "getOrCreateDrug s drugData = (Inr newId, s\<lparr>drugs := drugs s @ [newDrugRow newId drugData]\<rparr>)"
    and "in_genericName drugData = None \<Longrightarrow>
         generic_name (newDrugRow newId drugData) = Some (in_medicationName drugData)"
  using assms by (simp_all add: getOrCreateDrug_def newDrugRow_def)

section \<open>Where the code departs from its specification\<close>

text \<open>
  C1. \<open>searchDrugByNDC\<close> asks the store for one in-stock unit of the clinic, whatever its
  drug, and compares only that unit. The sample clinic stocks aspirin and zinc, in this
  order; a scan of the zinc code finds no inventory match: with the dashes the catalogue
  row is returned, flagged as not in inventory, and without them nothing is returned.
\<close>

theorem searchDrugByNDC_first_unit_only:
  "inStockUnits sampleStore ''c1'' = Some [unitOf ''u1'' aspirin, unitOf ''u2'' zinc] \<and>
   normalizeNDC (the (ndc_id zinc)) = normalizeNDC ''22222-2222-22'' \<and>
   searchDrugByNDC sampleStore ''22222-2222-22'' (Some ''c1'') = Inr (Some (toResult False zinc)) \<and>
   searchDrugByNDC sampleStore ''2222222222'' (Some ''c1'') = Inr None \<and>
   searchDrugByNDC sampleStore ''11111-1111-11'' (Some ''c1'') = Inr (Some (toResult True aspirin))"
  by code_simp

text \<open>
  C3. The query \<^verbatim>\<open>zz\<close> has no digit, so its digits-only form is empty, and every string
  includes the empty string: both drugs the sample clinic stocks are returned, although
  \<^verbatim>\<open>zz\<close> occurs in none of their names.
\<close>

theorem searchDrugs_empty_digits_match_all:
  "normalizeNDC ''zz'' = [] \<and>
   searchDrugs storeQuiet ''zz'' ''c1'' = Inr [toResult True aspirin, toResult True zinc] \<and>
   nameMatch ''zz'' aspirin = Inr False \<and> nameMatch ''zz'' zinc = Inr False"
  by code_simp

text \<open>
  C4. \<open>searchDrugs\<close> raises when the clinic stocks a drug without an NDC, and when it
  stocks a drug without a generic name whose medication name does not contain the query.
\<close>

theorem searchDrugs_raises_on_null:
  "searchDrugs storeNullNdc ''asp'' ''c1'' = Inl TypeError \<and>
   searchDrugs storeNullGeneric ''asp'' ''c1'' = Inl TypeError"
  by code_simp

text \<open>
  C9. With two catalogue rows for aspirin 81 mg tablets, the lookup by name, strength,
  unit and form finds no single row, and \<open>getOrCreateDrug\<close> inserts a third row and
  returns its identifier.
\<close>

theorem getOrCreateDrug_duplicates_twins:
  "similarDrug storeTwins aspirinData = None \<and>
   fst (getOrCreateDrug storeTwins aspirinData) = Inr ''d-new'' \<and>
   map drug_id (drugs (snd (getOrCreateDrug storeTwins aspirinData))) = [''d-asp'', ''d-asp2'', ''d-new''] \<and>
   fst (getOrCreateDrug (storeTwins\<lparr>drugs := [aspirin]\<rparr>) aspirinData) = Inr ''d-asp''"
  by code_simp

end
